theory Spec2Isabelle
  imports Complex_Main "HOL-Library.Word"
begin

section \<open>Bytes, integers on the wire, exceptions\<close>

text \<open>
  A Python \<open>bytes\<close> object is a list of octets. The one-byte constants of the class
  \<open>Net\<close> (\<open>b'\x01'\<close>, \<open>b'\xff'\<close>, ...) are \<open>bytes\<close> objects of length one, and the
  code compares and concatenates them as such, so they stay lists here.
\<close>

type_synonym bytes = "8 word list"

text \<open>
  The exceptions the modelled code can raise. \<open>VersionError\<close> is the
  \<open>Exception('Error: Incompatible Nethelpher version', version)\<close> of \<open>_decode_frame\<close>;
  \<open>JSONDecodeError\<close> stands for every failure of \<open>json.loads(data.decode('utf-8'))\<close>;
  \<open>RecursionError\<close> is raised by the interpreter when the call stack is too deep.
\<close>

datatype error =
    VersionError bytes
  | OverflowError
  | JSONDecodeError
  | KeyError
  | TypeError
  | RecursionError

text \<open>\<open>data[i:j]\<close> for \<open>0 \<le> i \<le> j\<close>: a slice is cut short at the end of the data, it never fails.\<close>

definition slice :: "nat \<Rightarrow> nat \<Rightarrow> 'a list \<Rightarrow> 'a list" where
  "slice i j xs = take (j - i) (drop i xs)"

text \<open>\<open>n.to_bytes(len, 'big')\<close>: the big-endian digits, \<open>OverflowError\<close> when \<open>n\<close> is negative
  or does not fit.\<close>

fun be_bytes :: "nat \<Rightarrow> nat \<Rightarrow> bytes" where
  "be_bytes 0 n = []"
| "be_bytes (Suc k) n = be_bytes k (n div 256) @ [of_nat (n mod 256)]"

definition to_bytes :: "int \<Rightarrow> nat \<Rightarrow> error + bytes" where
  "to_bytes n len =
     (if 0 \<le> n \<and> n < 256 ^ len then Inr (be_bytes len (nat n)) else Inl OverflowError)"

text \<open>\<open>int.from_bytes(bs, 'big')\<close>.\<close>

definition from_bytes :: "bytes \<Rightarrow> nat" where
  "from_bytes bs = foldl (\<lambda>acc b. acc * 256 + unat b) 0 bs"

section \<open>JSON values and \<open>json.dumps\<close>\<close>

text \<open>
  The values the code hands to \<open>_dumps\<close>: \<open>None\<close>, booleans, integers, strings, lists,
  tuples and dicts with string keys (in insertion order). A \<open>string\<close> is a sequence of
  code points below 256.
\<close>

datatype json =
    JNull
  | JBool bool
  | JInt int
  | JStr string
  | JList "json list"
  | JTuple "json list"
  | JDict "(string \<times> json) list"

text \<open>\<open>str(n)\<close> for a natural number and for an integer.\<close>

fun str_nat :: "nat \<Rightarrow> string" where
  "str_nat n =
     (if n < 10 then [''0123456789'' ! n]
      else str_nat (n div 10) @ [''0123456789'' ! (n mod 10)])"

declare str_nat.simps [simp del]

definition str_int :: "int \<Rightarrow> string" where
  "str_int i = (if i < 0 then ''-'' @ str_nat (nat (- i)) else str_nat (nat i))"

text \<open>
  Python's \<open>json.dumps\<close> with its default arguments (\<open>ensure_ascii=True\<close>, separators
  \<open>', '\<close> and \<open>': '\<close>). A character outside \<open>' '..'~'\<close>, a double quote and a backslash
  are escaped; the result is pure ASCII. A tuple is written as an array, like a list.
\<close>

definition hex_digit :: "nat \<Rightarrow> char" where
  "hex_digit d = ''0123456789abcdef'' ! d"

definition escape_char :: "char \<Rightarrow> string" where
  "escape_char c =
     (let n = (of_char c :: nat) in
      if n = 0x22 then [CHR 0x5C, CHR 0x22]
      else if n = 0x5C then [CHR 0x5C, CHR 0x5C]
      else if n = 0x0A then [CHR 0x5C, CHR ''n'']
      else if n = 0x0D then [CHR 0x5C, CHR ''r'']
      else if n = 0x09 then [CHR 0x5C, CHR ''t'']
      else if n = 0x08 then [CHR 0x5C, CHR ''b'']
      else if n = 0x0C then [CHR 0x5C, CHR ''f'']
      else if 0x20 \<le> n \<and> n \<le> 0x7E then [c]
      else [CHR 0x5C, CHR ''u'', CHR ''0'', CHR ''0'', hex_digit (n div 16), hex_digit (n mod 16)])"

definition json_string :: "string \<Rightarrow> string" where
  "json_string s = [CHR 0x22] @ concat (map escape_char s) @ [CHR 0x22]"

fun join :: "string \<Rightarrow> string list \<Rightarrow> string" where
  "join sep [] = []"
| "join sep [x] = x"
| "join sep (x # y # ys) = x @ sep @ join sep (y # ys)"

fun json_dumps :: "json \<Rightarrow> string" where
  "json_dumps JNull = ''null''"
| "json_dumps (JBool b) = (if b then ''true'' else ''false'')"
| "json_dumps (JInt i) = str_int i"
| "json_dumps (JStr s) = json_string s"
| "json_dumps (JList xs) = ''['' @ join '', '' (map json_dumps xs) @ '']''"
| "json_dumps (JTuple xs) = ''['' @ join '', '' (map json_dumps xs) @ '']''"
| "json_dumps (JDict kvs) =
     ''{'' @ join '', '' (map (\<lambda>kv. json_string (fst kv) @ '': '' @ json_dumps (snd kv)) kvs)
       @ ''}''"

text \<open>\<open>bytes(s, 'utf-8')\<close> on an ASCII string, which is what \<open>json.dumps\<close> returns.\<close>

definition utf8 :: "string \<Rightarrow> bytes" where
  "utf8 s = map (\<lambda>c. of_nat (of_char c)) s"

text \<open>\<open>Net._dumps\<close>.\<close>

definition dumps :: "json \<Rightarrow> bytes" where
  "dumps data = utf8 (json_dumps data)"

section \<open>The frame codec (class \<open>Net\<close>)\<close>

definition HEADER_SIZE :: nat where "HEADER_SIZE = 11"
definition VERSION :: bytes where "VERSION = [0x30, 0x32, 0x30]"

definition FRAME_TYPE_AUTH :: bytes where "FRAME_TYPE_AUTH = [1]"
definition FRAME_TYPE_DATA :: bytes where "FRAME_TYPE_DATA = [2]"
definition FRAME_TYPE_HEART :: bytes where "FRAME_TYPE_HEART = [3]"
definition FRAME_TYPE_PEERS :: bytes where "FRAME_TYPE_PEERS = [4]"
definition FRAME_TYPE_REQ :: bytes where "FRAME_TYPE_REQ = [5]"
definition FRAME_TYPE_SYSM :: bytes where "FRAME_TYPE_SYSM = [6]"

definition SYSM_TYPE_NAME :: int where "SYSM_TYPE_NAME = 0"
definition REQ_TYPE_DISCONNECT :: int where "REQ_TYPE_DISCONNECT = 0"
definition REQ_TYPE_PEERS :: int where "REQ_TYPE_PEERS = 1"

definition SERVER_ADDR :: bytes where "SERVER_ADDR = [0]"
definition UNKNOWN_ADDR :: bytes where "UNKNOWN_ADDR = [0xFF]"
definition ALL_CLIENTS :: bytes where "ALL_CLIENTS = [0xFF]"

text \<open>
  The dict a caller passes to \<open>_encode_frame\<close>: field \<open>f_k\<close> is the entry \<open>frame['k']\<close>.
  \<open>f_data = None\<close> is a dict without the key \<open>'data'\<close> (a present key carries a JSON
  value, possibly \<open>JNull\<close> for Python's \<open>None\<close>); \<open>f_meta = None\<close> is a dict without the
  key \<open>'meta'\<close> or with \<open>None\<close> under it.
\<close>

record frame =
  f_dest :: bytes
  f_type :: bytes
  f_data :: "json option"
  f_meta :: "bytes option"

text \<open>The dict \<open>_decode_frame\<close> returns: field \<open>d_k\<close> is \<open>decoded['k']\<close>.\<close>

record d_frame =
  d_version :: bytes
  d_dest :: bytes
  d_sender :: bytes
  d_type :: bytes
  d_meta :: bytes
  d_data :: bytes

text \<open>\<open>Net._construct_frame\<close>; \<open>my_addr\<close> is \<open>self.my_addr\<close>.\<close>

definition construct_frame :: "bytes \<Rightarrow> frame \<Rightarrow> bytes \<Rightarrow> error + bytes" where
  "construct_frame my_addr frame b_data =
     (let frame_length = HEADER_SIZE + length b_data;
          meta = (case f_meta frame of None \<Rightarrow> [0] | Some m \<Rightarrow> m)
      in case to_bytes (int frame_length) 4 of
           Inl e \<Rightarrow> Inl e
         | Inr len4 \<Rightarrow>
             Inr (len4 @ VERSION @ f_dest frame @ my_addr @ f_type frame @ meta @ b_data))"

text \<open>\<open>Net._encode_frame\<close>.\<close>

definition encode_frame :: "bytes \<Rightarrow> frame \<Rightarrow> error + bytes" where
  "encode_frame my_addr frame =
     (let b_data = (case f_data frame of Some data \<Rightarrow> dumps data | None \<Rightarrow> [])
      in construct_frame my_addr frame b_data)"

text \<open>\<open>Net._decode_frame\<close>.\<close>

definition decode_frame :: "bytes \<Rightarrow> error + d_frame" where
  "decode_frame frame =
     (let version = slice 4 7 frame in
      if version \<noteq> VERSION then Inl (VersionError version)
      else Inr \<lparr> d_version = version,
                 d_dest = slice 7 8 frame,
                 d_sender = slice 8 9 frame,
                 d_type = slice 9 10 frame,
                 d_meta = slice 10 11 frame,
                 d_data = drop 11 frame \<rparr>)"

text \<open>\<open>Net._get_frame\<close>: the first complete frame of a buffer, if there is one, and the rest.\<close>

definition get_frame :: "bytes \<Rightarrow> bytes option \<times> bytes" where
  "get_frame data =
     (let buf_size = length data in
      if buf_size < HEADER_SIZE then (None, data)
      else let frame_len = from_bytes (take 4 data) in
        if buf_size < frame_len then (None, data)
        else (Some (take frame_len data), drop frame_len data))"

section \<open>Payloads read from the wire\<close>

text \<open>
  One element of a DATA frame's payload, \<open>{'title': ..., 'content': ..., 'queue': ...}\<close>,
  with the types the wire format fixes: the title is a string, the content any JSON
  value, \<open>queue\<close> a boolean.
\<close>

record envelope =
  e_title :: string
  e_content :: json
  e_queue :: bool

definition envelope_json :: "envelope \<Rightarrow> json" where
  "envelope_json m =
     JDict [(''title'', JStr (e_title m)), (''content'', e_content m),
            (''queue'', JBool (e_queue m))]"

text \<open>
  \<open>json.loads\<close> is a library function that is not part of the repository. It enters the
  model as a parameter: for each payload kind, \<open>_loads\<close> followed by the subscript reads
  the caller makes on the result (\<open>message['title']\<close>, \<open>peer['addr']\<close>,
  \<open>auth_info['group']\<close>, ...), returning the fields with the types of the wire format, or
  the exception that \<open>_loads\<close> or a read raises.
\<close>

record json_reader =
  loads_msgs :: "bytes \<Rightarrow> error + envelope list"
  loads_peers :: "bytes \<Rightarrow> error + (string \<times> int) list"
  loads_sysm :: "bytes \<Rightarrow> error + int \<times> string"
  loads_auth :: "bytes \<Rightarrow> error + string \<times> string"

section \<open>The client node (class \<open>NetNode\<close>)\<close>

text \<open>\<open>d[k] = v\<close> on a dict that keeps insertion order: a known key keeps its place.\<close>

fun dict_set :: "'k \<Rightarrow> 'v \<Rightarrow> ('k \<times> 'v) list \<Rightarrow> ('k \<times> 'v) list" where
  "dict_set k v [] = [(k, v)]"
| "dict_set k v (kv # kvs) = (if fst kv = k then (k, v) # kvs else kv # dict_set k v kvs)"

text \<open>
  \<open>self.in_data\<close>: sender name, then title, then the list of contents. The sender name is
  \<open>None\<close> when the sender's address is in no entry of the peer map.
\<close>

type_synonym in_store = "string option \<Rightarrow> (string \<Rightarrow> json list option) option"

text \<open>
  The attributes of a \<open>NetNode\<close> object: field \<open>n_k\<close> is \<open>self.k\<close>; \<open>n_socket_open\<close> is
  whether \<open>self.socket\<close> has not been closed. \<open>self.out_data\<close> and \<open>self.peers\<close> are
  dicts whose order the code iterates over.
\<close>

record node =
  n_inBuf :: bytes
  n_outBuf :: bytes
  n_heartBeatTime :: real
  n_in_data :: in_store
  n_out_data :: "(bytes \<times> envelope list) list"
  n_peers :: "(string \<times> bytes) list"
  n_my_addr :: bytes
  n_name :: string
  n_socket_open :: bool

definition IN_BUFFER_LIMIT :: nat where "IN_BUFFER_LIMIT = 102400"
definition OUT_BUFFER_LIMIT :: nat where "OUT_BUFFER_LIMIT = 102400"

subsection \<open>Sending\<close>

text \<open>\<open>NetNode._get_peer_addr\<close>.\<close>

definition get_peer_addr :: "node \<Rightarrow> string \<Rightarrow> bytes option" where
  "get_peer_addr s nm =
     (case map_of (n_peers s) nm of
        Some a \<Rightarrow> Some a
      | None \<Rightarrow> if nm = ''ALL'' then Some ALL_CLIENTS else None)"

text \<open>\<open>NetNode.send_msg\<close>: the returned boolean and the node afterwards.\<close>

definition send_msg :: "node \<Rightarrow> string \<Rightarrow> string \<Rightarrow> json \<Rightarrow> bool \<Rightarrow> bool \<times> node" where
  "send_msg s nm title content queue =
     (case get_peer_addr s nm of
        None \<Rightarrow> (False, s)
      | Some dest \<Rightarrow>
          let data = \<lparr> e_title = title, e_content = content, e_queue = queue \<rparr>;
              out0 = (if map_of (n_out_data s) dest = None
                      then dict_set dest [] (n_out_data s) else n_out_data s);
              pending = (case map_of out0 dest of Some ms \<Rightarrow> ms | None \<Rightarrow> [])
          in (True, s\<lparr> n_out_data := dict_set dest (pending @ [data]) out0 \<rparr>))"

text \<open>\<open>NetNode._send_bytes\<close> and \<open>NetNode._send_frame\<close>. \<open>_send_frame\<close> always puts the
  keys \<open>'data'\<close> and \<open>'meta'\<close> into the dict it encodes.\<close>

definition node_send_bytes :: "node \<Rightarrow> bytes \<Rightarrow> node" where
  "node_send_bytes s data = s\<lparr> n_outBuf := n_outBuf s @ data \<rparr>"

definition send_frame :: "node \<Rightarrow> bytes \<Rightarrow> bytes \<Rightarrow> json \<Rightarrow> bytes option \<Rightarrow> error + node" where
  "send_frame s dest frame_type data meta =
     (case encode_frame (n_my_addr s)
             \<lparr> f_dest = dest, f_type = frame_type, f_data = Some data, f_meta = meta \<rparr> of
        Inl e \<Rightarrow> Inl e
      | Inr e_frame \<Rightarrow> Inr (node_send_bytes s e_frame))"

text \<open>\<open>NetNode._send_auth\<close> and \<open>NetNode._send_data_frame\<close>.\<close>

definition send_auth :: "node \<Rightarrow> string \<Rightarrow> string \<Rightarrow> error + node" where
  "send_auth s nm grp =
     send_frame s SERVER_ADDR FRAME_TYPE_AUTH
       (JDict [(''name'', JStr nm), (''group'', JStr grp)]) None"

definition send_data_frame :: "node \<Rightarrow> bytes \<Rightarrow> envelope list \<Rightarrow> error + node" where
  "send_data_frame s dest data =
     send_frame s dest FRAME_TYPE_DATA (JList (map envelope_json data)) None"

text \<open>
  \<open>NetNode._send_heartbeat_frame\<close>; \<open>now\<close> is the value of \<open>time.time()\<close>. Time stamps
  are Python floats, and \<open>self.heartBeatTime + 1\<close> is their addition, which rounds:
  \<open>fadd\<close> is that addition. The data argument is Python's \<open>None\<close>.
\<close>

definition send_heartbeat_frame ::
  "(real \<Rightarrow> real \<Rightarrow> real) \<Rightarrow> node \<Rightarrow> real \<Rightarrow> error + node" where
  "send_heartbeat_frame fadd s now =
     (if now > fadd (n_heartBeatTime s) 1
      then send_frame (s\<lparr> n_heartBeatTime := now \<rparr>) SERVER_ADDR FRAME_TYPE_HEART JNull None
      else Inr s)"

text \<open>\<open>NetNode._send_req(self, req_type, data)\<close>: both parameters are required.\<close>

definition send_req :: "node \<Rightarrow> json \<Rightarrow> json \<Rightarrow> error + node" where
  "send_req s req_type data =
     send_frame s SERVER_ADDR FRAME_TYPE_REQ
       (JDict [(''type'', req_type), (''data'', data)]) None"

text \<open>
  A call \<open>self._send_req(...)\<close> with the given positional arguments. Python binds them to
  the parameters \<open>req_type\<close> and \<open>data\<close>, neither of which has a default value; with any
  other number of arguments the call raises \<open>TypeError\<close> before the body runs.
\<close>

definition call_send_req :: "node \<Rightarrow> json list \<Rightarrow> error + node" where
  "call_send_req s args =
     (case args of
        [req_type, data] \<Rightarrow> send_req s req_type data
      | _ \<Rightarrow> Inl TypeError)"

text \<open>\<open>NetNode.disconnect\<close>: \<open>self._send_req(self.REQ_TYPE_DISCONNECT)\<close>, then
  \<open>self.socket.close()\<close>.\<close>

definition disconnect :: "node \<Rightarrow> error + node" where
  "disconnect s =
     (case call_send_req s [JInt REQ_TYPE_DISCONNECT] of
        Inl e \<Rightarrow> Inl e
      | Inr s' \<Rightarrow> Inr (s'\<lparr> n_socket_open := False \<rparr>))"

subsection \<open>The inbound message store\<close>

text \<open>The body of the loop of \<open>NetNode._process_dataframe\<close>, for one message.\<close>

definition store_message :: "string option \<Rightarrow> in_store \<Rightarrow> envelope \<Rightarrow> in_store" where
  "store_message sender_name store message =
     (let title = e_title message;
          content = e_content message;
          queue = e_queue message;
          by_title = (case store sender_name of None \<Rightarrow> Map.empty | Some m \<Rightarrow> m);
          old = (case by_title title of None \<Rightarrow> [] | Some q \<Rightarrow> q)
      in store(sender_name \<mapsto> by_title(title \<mapsto> (if queue then old @ [content] else [content]))))"

text \<open>\<open>NetNode._get_name_from_addr\<close>: the first name of the peer map with this address.\<close>

definition get_name_from_addr :: "node \<Rightarrow> bytes \<Rightarrow> string option" where
  "get_name_from_addr s a = map_option fst (find (\<lambda>kv. snd kv = a) (n_peers s))"

text \<open>\<open>NetNode._process_dataframe\<close>.\<close>

definition node_process_dataframe :: "json_reader \<Rightarrow> node \<Rightarrow> d_frame \<Rightarrow> error + node" where
  "node_process_dataframe rd s d =
     (let sender_name = get_name_from_addr s (d_sender d) in
      case loads_msgs rd (d_data d) of
        Inl e \<Rightarrow> Inl e
      | Inr messages \<Rightarrow>
          Inr (s\<lparr> n_in_data := foldl (store_message sender_name) (n_in_data s) messages \<rparr>))"

text \<open>\<open>NetNode.available\<close>, \<open>NetNode.get_msg\<close> and \<open>NetNode.get_all_msgs\<close>: the returned
  value (\<open>None\<close> for Python's \<open>None\<close>) and the node afterwards.\<close>

definition available :: "node \<Rightarrow> string option \<Rightarrow> string \<Rightarrow> nat" where
  "available s sender title =
     (case n_in_data s sender of
        None \<Rightarrow> 0
      | Some by_title \<Rightarrow>
          (case by_title title of
             None \<Rightarrow> 0
           | Some q \<Rightarrow> if length q < 1 then 0 else length q))"

definition get_msg :: "node \<Rightarrow> string option \<Rightarrow> string \<Rightarrow> bool \<Rightarrow> json option \<times> node" where
  "get_msg s sender title clear =
     (case n_in_data s sender of
        None \<Rightarrow> (None, s)
      | Some by_title \<Rightarrow>
          (case by_title title of
             None \<Rightarrow> (None, s)
           | Some q \<Rightarrow>
               if length q < 1
               then (None, s\<lparr> n_in_data := (n_in_data s)(sender \<mapsto> by_title(title := None)) \<rparr>)
               else if clear
               then (Some (hd q), s\<lparr> n_in_data := (n_in_data s)(sender \<mapsto> by_title(title \<mapsto> tl q)) \<rparr>)
               else (Some (hd q), s)))"

definition get_all_msgs ::
  "node \<Rightarrow> string option \<Rightarrow> string \<Rightarrow> bool \<Rightarrow> json list option \<times> node" where
  "get_all_msgs s sender title clear =
     (case n_in_data s sender of
        None \<Rightarrow> (None, s)
      | Some by_title \<Rightarrow>
          (case by_title title of
             None \<Rightarrow> (None, s)
           | Some q \<Rightarrow>
               if length q < 1
               then (None, s\<lparr> n_in_data := (n_in_data s)(sender \<mapsto> by_title(title := None)) \<rparr>)
               else if clear
               then (Some q, s\<lparr> n_in_data := (n_in_data s)(sender \<mapsto> by_title(title \<mapsto> [])) \<rparr>)
               else (Some q, s)))"

subsection \<open>Receiving\<close>

text \<open>\<open>NetNode._process_peersframe\<close>: the peer map is rebuilt entry by entry, then the own
  address is looked up under the own name.\<close>

fun build_peers ::
  "(string \<times> bytes) list \<Rightarrow> (string \<times> int) list \<Rightarrow> error + (string \<times> bytes) list" where
  "build_peers acc [] = Inr acc"
| "build_peers acc (peer # rest) =
     (case to_bytes (snd peer) 1 of
        Inl e \<Rightarrow> Inl e
      | Inr a \<Rightarrow> build_peers (dict_set (fst peer) a acc) rest)"

definition process_peersframe :: "json_reader \<Rightarrow> node \<Rightarrow> d_frame \<Rightarrow> error + node" where
  "process_peersframe rd s d =
     (case loads_peers rd (d_data d) of
        Inl e \<Rightarrow> Inl e
      | Inr ps \<Rightarrow>
          (case build_peers [] ps of
             Inl e \<Rightarrow> Inl e
           | Inr new_peers \<Rightarrow>
               (case map_of new_peers (n_name s) of
                  None \<Rightarrow> Inl KeyError
                | Some a \<Rightarrow> Inr (s\<lparr> n_peers := new_peers, n_my_addr := a \<rparr>))))"

text \<open>\<open>NetNode._process_sysmframe\<close> with \<open>NetNode._process_sysm_name\<close>.\<close>

definition process_sysmframe :: "json_reader \<Rightarrow> node \<Rightarrow> d_frame \<Rightarrow> error + node" where
  "process_sysmframe rd s d =
     (case loads_sysm rd (d_data d) of
        Inl e \<Rightarrow> Inl e
      | Inr msg \<Rightarrow>
          if fst msg = SYSM_TYPE_NAME then Inr (s\<lparr> n_name := snd msg \<rparr>) else Inr s)"

text \<open>\<open>NetNode._process_frame\<close>.\<close>

definition node_process_frame :: "json_reader \<Rightarrow> node \<Rightarrow> bytes \<Rightarrow> error + node" where
  "node_process_frame rd s frame =
     (case decode_frame frame of
        Inl e \<Rightarrow> Inl e
      | Inr d \<Rightarrow>
          if d_type d = FRAME_TYPE_DATA then node_process_dataframe rd s d
          else if d_type d = FRAME_TYPE_PEERS then process_peersframe rd s d
          else if d_type d = FRAME_TYPE_SYSM then process_sysmframe rd s d
          else Inr s)"

lemma node_process_frame_inBuf:
  "node_process_frame rd s frame = Inr s' \<Longrightarrow> n_inBuf s' = n_inBuf s"
  by (auto simp: node_process_frame_def node_process_dataframe_def process_peersframe_def
      process_sysmframe_def Let_def split: sum.splits if_splits option.splits)

lemma decode_frame_nonempty: "decode_frame frame = Inr d \<Longrightarrow> frame \<noteq> []"
  by (auto simp: decode_frame_def slice_def VERSION_def Let_def split: if_splits)

lemma get_frame_shorter:
  "get_frame buf = (Some frame, rest) \<Longrightarrow> frame \<noteq> [] \<Longrightarrow> length rest < length buf"
  by (auto simp: get_frame_def Let_def HEADER_SIZE_def split: if_splits)

text \<open>
  \<open>NetNode._process_inbuf\<close>: one frame is taken off the buffer and processed, and the
  function calls itself while bytes remain. The interpreter bounds the depth of the call
  stack (\<open>sys.getrecursionlimit()\<close>): \<open>depth\<close> is the number of times the function can
  still call itself, and the call after that raises \<open>RecursionError\<close>.
\<close>

fun process_inbuf :: "json_reader \<Rightarrow> nat \<Rightarrow> node \<Rightarrow> error + node" where
  "process_inbuf rd depth s =
     (case get_frame (n_inBuf s) of
        (None, rest) \<Rightarrow> Inr (s\<lparr> n_inBuf := rest \<rparr>)
      | (Some frame_bytes, rest) \<Rightarrow>
          (case node_process_frame rd (s\<lparr> n_inBuf := rest \<rparr>) frame_bytes of
             Inl e \<Rightarrow> Inl e
           | Inr s' \<Rightarrow>
               if length (n_inBuf s') > 0 then
                 (case depth of
                    0 \<Rightarrow> Inl RecursionError
                  | Suc depth' \<Rightarrow> process_inbuf rd depth' s')
               else Inr s'))"

declare process_inbuf.simps [simp del]

text \<open>
  \<open>NetNode.process_recv\<close>. \<open>received\<close> lists the non-empty results of the successive
  \<open>self.socket.recv(1024)\<close> calls of the loop, up to the empty read or the
  \<open>BlockingIOError\<close> that ends it.
\<close>

definition process_recv :: "json_reader \<Rightarrow> nat \<Rightarrow> node \<Rightarrow> bytes list \<Rightarrow> error + node" where
  "process_recv rd depth s received =
     process_inbuf rd depth (s\<lparr> n_inBuf := foldl (@) (n_inBuf s) received \<rparr>)"

subsection \<open>Sequences of store operations\<close>

text \<open>What the store holds for a sender and a title: the list under the two keys, empty
  when a key is missing.\<close>

definition stored :: "node \<Rightarrow> string option \<Rightarrow> string \<Rightarrow> json list" where
  "stored s sender title =
     (case n_in_data s sender of
        None \<Rightarrow> []
      | Some by_title \<Rightarrow> (case by_title title of None \<Rightarrow> [] | Some q \<Rightarrow> q))"

text \<open>
  The operations that touch the store: one envelope of a DATA frame from the sender with
  this name goes through the loop body of \<open>_process_dataframe\<close>, or the application calls
  \<open>get_msg\<close> or \<open>get_all_msgs\<close>.
\<close>

datatype store_event =
    Recv "string option" envelope
  | Get_msg "string option" string bool
  | Get_all_msgs "string option" string bool

fun store_step :: "node \<Rightarrow> store_event \<Rightarrow> node" where
  "store_step s (Recv sender m) = s\<lparr> n_in_data := store_message sender (n_in_data s) m \<rparr>"
| "store_step s (Get_msg sender title clear) = snd (get_msg s sender title clear)"
| "store_step s (Get_all_msgs sender title clear) = snd (get_all_msgs s sender title clear)"

definition run_store :: "node \<Rightarrow> store_event list \<Rightarrow> node" where
  "run_store s evs = foldl store_step s evs"

text \<open>An event is an envelope for the pair; an event is a read that removes from the pair;
  the contents of the envelopes for the pair, in order; an envelope event asks to queue.\<close>

fun recv_for :: "string option \<Rightarrow> string \<Rightarrow> store_event \<Rightarrow> bool" where
  "recv_for sender title (Recv sender' m) = (sender' = sender \<and> e_title m = title)"
| "recv_for sender title (Get_msg sender' title' clear) = False"
| "recv_for sender title (Get_all_msgs sender' title' clear) = False"

fun read_of :: "string option \<Rightarrow> string \<Rightarrow> store_event \<Rightarrow> bool" where
  "read_of sender title (Recv sender' m) = False"
| "read_of sender title (Get_msg sender' title' clear) =
     (sender' = sender \<and> title' = title \<and> clear)"
| "read_of sender title (Get_all_msgs sender' title' clear) =
     (sender' = sender \<and> title' = title \<and> clear)"

fun contents_for :: "string option \<Rightarrow> string \<Rightarrow> store_event list \<Rightarrow> json list" where
  "contents_for sender title [] = []"
| "contents_for sender title (Recv sender' m # evs) =
     (if sender' = sender \<and> e_title m = title
      then e_content m # contents_for sender title evs
      else contents_for sender title evs)"
| "contents_for sender title (e # evs) = contents_for sender title evs"

fun queues :: "store_event \<Rightarrow> bool" where
  "queues (Recv sender m) = e_queue m"
| "queues e = True"

text \<open>A node and a reader for evaluating the definitions: the node knows the peer
  \<open>bob\<close> at address 2 and holds one unread value under \<open>(bob, q)\<close>; the reader decodes
  every DATA payload to two envelopes with title \<open>x\<close>.\<close>

definition example_node :: node where
  "example_node =
     \<lparr> n_inBuf = [], n_outBuf = [], n_heartBeatTime = 0,
       n_in_data = [Some ''bob'' \<mapsto> [''q'' \<mapsto> [JInt 5]]],
       n_out_data = [], n_peers = [(''alice'', [1]), (''bob'', [2])], n_my_addr = [1],
       n_name = ''alice'', n_socket_open = True \<rparr>"

definition example_reader :: json_reader where
  "example_reader =
     \<lparr> loads_msgs = (\<lambda>b. Inr [\<lparr> e_title = ''x'', e_content = JInt 1, e_queue = False \<rparr>,
                               \<lparr> e_title = ''x'', e_content = JInt 2, e_queue = False \<rparr>]),
       loads_peers = (\<lambda>b. Inr [(''alice'', 1), (''bob'', 2)]),
       loads_sysm = (\<lambda>b. Inr (0, ''Ant'')),
       loads_auth = (\<lambda>b. Inr (''alice'', ''g'')) \<rparr>"

section \<open>The relay server (class \<open>NetServer\<close>)\<close>

text \<open>
  A client record is a Python dict that the server mutates in place and that
  \<open>self.clients\<close> refers to. Field \<open>c_k\<close> is \<open>client['k']\<close>; \<open>c_sock_open\<close> is whether
  \<open>client['sock']\<close> is still registered and open, and \<open>c_ip\<close> is \<open>client['ip']\<close>, the
  address that \<open>accept\<close> returned, as \<open>print\<close> writes it. The dicts live in a store indexed by
  object identity (a number), and \<open>self.clients\<close> is a list of such references. Two
  distinct client dicts are never equal, since each holds a socket object of its own, so
  \<open>client in self.clients\<close> and \<open>self.clients.remove(client)\<close> compare references.
\<close>

record client =
  c_ip :: string
  c_name :: string
  c_group :: string
  c_addr :: bytes
  c_inb :: bytes
  c_outb :: bytes
  c_sock_open :: bool
  c_watchDog :: real

text \<open>
  The server object: field \<open>s_k\<close> is \<open>self.k\<close>. \<open>s_objs\<close> is the store of client dicts,
  \<open>s_next\<close> the identity of the next dict to be created, \<open>s_log\<close> the lines written by
  \<open>self.print\<close>, each with the arguments that were printed, and \<open>s_random_names\<close> the
  shuffled class attribute \<open>_RANDOM_NAMES\<close>.
\<close>

record server =
  s_objs :: "nat \<Rightarrow> client"
  s_clients :: "nat list"
  s_groups :: "string list"
  s_verbosity :: nat
  s_log :: "string list list"
  s_random_names :: "string list"
  s_next :: nat

definition VERBOSITY_WARNING :: nat where "VERBOSITY_WARNING = 1"
definition VERBOSITY_INFO :: nat where "VERBOSITY_INFO = 2"

text \<open>\<open>NetServer.print\<close>.\<close>

definition server_print :: "server \<Rightarrow> nat \<Rightarrow> string list \<Rightarrow> server" where
  "server_print s level arg =
     (if s_verbosity s \<ge> level then s\<lparr> s_log := s_log s @ [arg] \<rparr> else s)"

text \<open>\<open>NetServer.disconnect\<close>: the socket is unregistered and closed, and the client is
  removed from \<open>self.clients\<close> if it is there.\<close>

definition server_disconnect :: "server \<Rightarrow> nat \<Rightarrow> server" where
  "server_disconnect s r =
     s\<lparr> s_objs := (s_objs s)(r := (s_objs s r)\<lparr> c_sock_open := False \<rparr>),
        s_clients := remove1 r (s_clients s) \<rparr>"

text \<open>\<open>NetServer._accept_connection\<close>; \<open>ip\<close> is the peer address that \<open>accept\<close> returned and
  \<open>now\<close> the value of \<open>time.time()\<close>.\<close>

definition accept_connection :: "server \<Rightarrow> string \<Rightarrow> real \<Rightarrow> server" where
  "accept_connection s ip now =
     (let r = s_next s;
          client = \<lparr> c_ip = ip, c_name = '''', c_group = '''', c_addr = UNKNOWN_ADDR,
                     c_inb = [], c_outb = [], c_sock_open = True, c_watchDog = now \<rparr>
      in s\<lparr> s_objs := (s_objs s)(r := client),
            s_clients := s_clients s @ [r],
            s_next := Suc r \<rparr>)"

text \<open>\<open>NetServer._get_client_by_addr\<close>, \<open>_get_client_by_name\<close> and
  \<open>_get_clients_by_group\<close>.\<close>

definition get_client_by_addr :: "server \<Rightarrow> bytes \<Rightarrow> string \<Rightarrow> nat option" where
  "get_client_by_addr s a grp =
     find (\<lambda>r. c_addr (s_objs s r) = a \<and> c_group (s_objs s r) = grp) (s_clients s)"

definition get_client_by_name :: "server \<Rightarrow> string \<Rightarrow> string \<Rightarrow> nat list" where
  "get_client_by_name s nm grp =
     filter (\<lambda>r. c_group (s_objs s r) = grp \<and> c_name (s_objs s r) = nm) (s_clients s)"

definition get_clients_by_group :: "server \<Rightarrow> string \<Rightarrow> nat list" where
  "get_clients_by_group s grp = filter (\<lambda>r. c_group (s_objs s r) = grp) (s_clients s)"

text \<open>\<open>NetServer._get_free_addr\<close>: the first \<open>addr\<close> of \<open>range(1, 255)\<close> that no client of
  the group holds, as one byte.\<close>

definition get_free_addr :: "server \<Rightarrow> string \<Rightarrow> bytes option" where
  "get_free_addr s grp =
     (case find (\<lambda>a. get_client_by_addr s (be_bytes 1 a) grp = None) [1..<255] of
        None \<Rightarrow> None
      | Some a \<Rightarrow> Some (be_bytes 1 a))"

text \<open>\<open>NetServer._get_random_name\<close>: the first unused name of the pool, else the first
  unused name with a numeric suffix, the suffixes \<open>1..254\<close> in the outer loop.\<close>

definition get_random_name :: "server \<Rightarrow> string \<Rightarrow> string option" where
  "get_random_name s grp =
     (let used_names = map (\<lambda>r. c_name (s_objs s r)) (get_clients_by_group s grp) in
      case find (\<lambda>nm. nm \<notin> set used_names) (s_random_names s) of
        Some nm \<Rightarrow> Some nm
      | None \<Rightarrow>
          find (\<lambda>nm. nm \<notin> set used_names)
            (concat (map (\<lambda>a. map (\<lambda>nm. nm @ str_nat a) (s_random_names s)) [1..<255])))"

text \<open>\<open>NetServer._get_peers_list\<close>.\<close>

definition get_peers_list :: "server \<Rightarrow> string \<Rightarrow> json" where
  "get_peers_list s grp =
     JList (map (\<lambda>r. JDict [(''name'', JStr (c_name (s_objs s r))),
                            (''addr'', JInt (int (from_bytes (c_addr (s_objs s r)))))])
             (get_clients_by_group s grp))"

text \<open>\<open>NetServer._send_bytes\<close>.\<close>

definition server_send_bytes :: "server \<Rightarrow> nat \<Rightarrow> bytes \<Rightarrow> server" where
  "server_send_bytes s r data =
     s\<lparr> s_objs := (s_objs s)(r := (s_objs s r)\<lparr> c_outb := c_outb (s_objs s r) @ data \<rparr>) \<rparr>"

text \<open>\<open>NetServer._send_peers_frame\<close> and \<open>NetServer._send_sysm_name_frame\<close>. The server's
  own address \<open>self.my_addr\<close> is \<open>SERVER_ADDR\<close> from \<open>__init__\<close> on.\<close>

definition send_peers_frame :: "server \<Rightarrow> string \<Rightarrow> error + server" where
  "send_peers_frame s grp =
     (case encode_frame SERVER_ADDR
             \<lparr> f_dest = ALL_CLIENTS, f_type = FRAME_TYPE_PEERS,
               f_data = Some (get_peers_list s grp), f_meta = None \<rparr> of
        Inl e \<Rightarrow> Inl e
      | Inr e_frame \<Rightarrow>
          Inr (foldl (\<lambda>s' r. server_send_bytes s' r e_frame) s (get_clients_by_group s grp)))"

definition send_sysm_name_frame :: "server \<Rightarrow> nat \<Rightarrow> string \<Rightarrow> error + server" where
  "send_sysm_name_frame s r nm =
     (case encode_frame SERVER_ADDR
             \<lparr> f_dest = c_addr (s_objs s r), f_type = FRAME_TYPE_SYSM,
               f_data = Some (JDict [(''type'', JInt SYSM_TYPE_NAME), (''msg'', JNull),
                                     (''data'', JStr nm)]),
               f_meta = None \<rparr> of
        Inl e \<Rightarrow> Inl e
      | Inr e_frame \<Rightarrow> Inr (server_send_bytes s r e_frame))"

text \<open>
  \<open>NetServer._process_authframe\<close>, in two parts. The first is the name arbitration inside
  an allowed group: it returns the name the client will carry, or \<open>None\<close> when the client
  was disconnected and the function returned.
\<close>

definition auth_name :: "server \<Rightarrow> nat \<Rightarrow> string \<Rightarrow> string \<Rightarrow> error + server \<times> string option" where
  "auth_name s r nm grp =
     (if nm = '''' then
        (case get_random_name s grp of
           None \<Rightarrow>
             Inr (server_disconnect
                    (server_print s VERBOSITY_WARNING
                       [''Unable to find unused name. Closing'', c_ip (s_objs s r)]) r,
                  None)
         | Some nm' \<Rightarrow>
             (case send_sysm_name_frame s r nm' of
                Inl e \<Rightarrow> Inl e
              | Inr s' \<Rightarrow> Inr (s', Some nm')))
      else if get_client_by_name s nm grp \<noteq> [] then
        Inr (server_disconnect
               (server_print s VERBOSITY_WARNING [''Repeated name. Closing'', c_ip (s_objs s r)]) r,
             None)
      else Inr (s, Some nm))"

definition process_authframe :: "json_reader \<Rightarrow> server \<Rightarrow> nat \<Rightarrow> d_frame \<Rightarrow> error + server" where
  "process_authframe rd s r d =
     (case loads_auth rd (d_data d) of
        Inl e \<Rightarrow> Inl e
      | Inr auth_info \<Rightarrow>
          let nm = fst auth_info; grp = snd auth_info in
          if grp \<in> set (s_groups s) then
            (case auth_name s r nm grp of
               Inl e \<Rightarrow> Inl e
             | Inr (s1, None) \<Rightarrow> Inr s1
             | Inr (s1, Some nm') \<Rightarrow>
                 let s2 = server_print s1 VERBOSITY_INFO [''Auth passed'', nm', grp] in
                 (case get_free_addr s2 grp of
                    None \<Rightarrow>
                      Inr (server_disconnect
                             (server_print s2 VERBOSITY_WARNING
                                [''No free addresses. Closing'', c_ip (s_objs s2 r)]) r)
                  | Some a \<Rightarrow>
                      send_peers_frame
                        (s2\<lparr> s_objs := (s_objs s2)
                               (r := (s_objs s2 r)\<lparr> c_name := nm', c_group := grp, c_addr := a \<rparr>) \<rparr>)
                        grp))
          else
            Inr (server_disconnect
                   (server_print s VERBOSITY_WARNING [''Auth failed. Closing'', c_ip (s_objs s r)])
                   r))"

text \<open>\<open>NetServer._process_dataframe\<close>: the relay. \<open>frame\<close> is the frame as received.\<close>

definition server_process_dataframe :: "server \<Rightarrow> nat \<Rightarrow> d_frame \<Rightarrow> bytes \<Rightarrow> server" where
  "server_process_dataframe s r d frame =
     (if d_dest d = ALL_CLIENTS then
        foldl (\<lambda>s' dest_client.
                 if c_addr (s_objs s' dest_client) \<noteq> d_sender d
                 then server_send_bytes s' dest_client frame else s')
          s (get_clients_by_group s (c_group (s_objs s r)))
      else
        (case get_client_by_addr s (d_dest d) (c_group (s_objs s r)) of
           Some dest_client \<Rightarrow> server_send_bytes s dest_client frame
         | None \<Rightarrow> s))"

text \<open>\<open>NetServer._process_frame\<close>; \<open>now\<close> is the value of \<open>time.time()\<close>.\<close>

definition server_process_frame ::
  "json_reader \<Rightarrow> server \<Rightarrow> nat \<Rightarrow> bytes \<Rightarrow> real \<Rightarrow> error + server" where
  "server_process_frame rd s r frame_bytes now =
     (case decode_frame frame_bytes of
        Inl e \<Rightarrow> Inl e
      | Inr d \<Rightarrow>
          if d_type d = FRAME_TYPE_AUTH then process_authframe rd s r d
          else if c_group (s_objs s r) = '''' then Inr s
          else if c_addr (s_objs s r) \<noteq> d_sender d then
            Inr (server_print s VERBOSITY_WARNING [''Forged sender addr.'', c_ip (s_objs s r)])
          else
            let s1 = s\<lparr> s_objs := (s_objs s)(r := (s_objs s r)\<lparr> c_watchDog := now \<rparr>) \<rparr> in
            if d_type d = FRAME_TYPE_DATA
            then Inr (server_process_dataframe s1 r d frame_bytes)
            else Inr s1)"

subsection \<open>Reading from a client\<close>

text \<open>No step of frame processing touches an inbound buffer.\<close>

lemma objs_server_print [simp]: "s_objs (server_print s level arg) = s_objs s"
  by (simp add: server_print_def)

lemma inb_server_send_bytes [simp]:
  "c_inb (s_objs (server_send_bytes s r data) x) = c_inb (s_objs s x)"
  by (simp add: server_send_bytes_def)

lemma inb_server_disconnect [simp]: "c_inb (s_objs (server_disconnect s r) x) = c_inb (s_objs s x)"
  by (simp add: server_disconnect_def)

lemma inb_foldl_send:
  "c_inb (s_objs (foldl (\<lambda>s' r. if P s' r then server_send_bytes s' r data else s') s rs) x) =
     c_inb (s_objs s x)"
  by (induction rs arbitrary: s) simp_all

lemma inb_send_peers_frame:
  "send_peers_frame s grp = Inr s' \<Longrightarrow> c_inb (s_objs s' x) = c_inb (s_objs s x)"
  using inb_foldl_send [where P = "\<lambda>_ _. True"]
  by (auto simp: send_peers_frame_def split: sum.splits)

lemma inb_send_sysm_name_frame:
  "send_sysm_name_frame s r nm = Inr s' \<Longrightarrow> c_inb (s_objs s' x) = c_inb (s_objs s x)"
  by (auto simp: send_sysm_name_frame_def split: sum.splits)

lemma inb_auth_name:
  "auth_name s r nm grp = Inr (s', res) \<Longrightarrow> c_inb (s_objs s' x) = c_inb (s_objs s x)"
  by (auto simp: auth_name_def split: if_splits option.splits sum.splits
      dest: inb_send_sysm_name_frame)

lemma inb_process_authframe:
  "process_authframe rd s r d = Inr s' \<Longrightarrow> c_inb (s_objs s' x) = c_inb (s_objs s x)"
  by (auto simp: process_authframe_def Let_def
      split: if_splits option.splits sum.splits prod.splits
      dest!: inb_send_peers_frame [where x = x] inb_auth_name [where x = x])

lemma inb_server_process_dataframe:
  "c_inb (s_objs (server_process_dataframe s r d frame) x) = c_inb (s_objs s x)"
  by (simp add: server_process_dataframe_def inb_foldl_send split: option.splits)

lemma inb_server_process_frame:
  "server_process_frame rd s r frame now = Inr s' \<Longrightarrow> c_inb (s_objs s' x) = c_inb (s_objs s x)"
  by (auto simp: server_process_frame_def Let_def inb_server_process_dataframe
      split: if_splits sum.splits dest!: inb_process_authframe [where x = x])

text \<open>
  \<open>NetServer._process_buf\<close>: one frame is taken off the client's inbound buffer and
  processed, and the function calls itself until \<open>_get_frame\<close> finds no complete frame.
  \<open>now\<close> is the reading of the clock while the buffer is processed. The interpreter
  bounds the depth of the call stack: \<open>depth\<close> is the number of times the function can
  still call itself, and the call after that raises \<open>RecursionError\<close>.
\<close>

fun process_buf :: "json_reader \<Rightarrow> nat \<Rightarrow> server \<Rightarrow> nat \<Rightarrow> real \<Rightarrow> error + server" where
  "process_buf rd depth s r now =
     (case get_frame (c_inb (s_objs s r)) of
        (None, rest) \<Rightarrow> Inr (s\<lparr> s_objs := (s_objs s)(r := (s_objs s r)\<lparr> c_inb := rest \<rparr>) \<rparr>)
      | (Some frame_bytes, rest) \<Rightarrow>
          (case server_process_frame rd
                  (s\<lparr> s_objs := (s_objs s)(r := (s_objs s r)\<lparr> c_inb := rest \<rparr>) \<rparr>)
                  r frame_bytes now of
             Inl e \<Rightarrow> Inl e
           | Inr s' \<Rightarrow>
               (case depth of
                  0 \<Rightarrow> Inl RecursionError
                | Suc depth' \<Rightarrow> process_buf rd depth' s' r now)))"

declare process_buf.simps [simp del]

text \<open>
  What \<open>sock.recv(1024)\<close> does in \<open>_service_read\<close>: it returns bytes (none when the peer
  has closed the connection), or raises a \<open>TimeoutError\<close>, or another \<open>OSError\<close>
  (\<open>ConnectionError\<close> is one; so is the error of reading from a closed socket).
\<close>

datatype recv_result = Received bytes | Recv_OSError | Recv_TimeoutError

text \<open>
  \<open>NetServer._service_read\<close> for the client \<open>key.data\<close>. \<open>TimeoutError\<close> is a subclass of
  \<open>OSError\<close>, so the first handler catches it and the handler written for it is never
  reached. None of the exceptions of type \<open>error\<close> is an \<open>OSError\<close>: the handlers do not
  catch them.
\<close>

definition service_read ::
  "json_reader \<Rightarrow> nat \<Rightarrow> server \<Rightarrow> nat \<Rightarrow> recv_result \<Rightarrow> real \<Rightarrow> error + server" where
  "service_read rd depth s r res now =
     (case res of
        Received recv_data \<Rightarrow>
          if recv_data \<noteq> [] then
            let s1 = s\<lparr> s_objs := (s_objs s)
                         (r := (s_objs s r)\<lparr> c_inb := c_inb (s_objs s r) @ recv_data \<rparr>) \<rparr>;
                buf_size = length (c_inb (s_objs s1 r))
            in if buf_size > IN_BUFFER_LIMIT then
                 Inr (server_disconnect
                        (server_print s1 VERBOSITY_WARNING
                           [''IN_BUFFER_LIMIT exceeded. Closing'', c_ip (s_objs s1 r)]) r)
               else process_buf rd depth s1 r now
          else
            Inr (server_disconnect
                   (server_print s VERBOSITY_INFO
                      [''Client disconnected. Closing'', c_ip (s_objs s r)]) r)
      | Recv_OSError \<Rightarrow>
          Inr (server_disconnect
                 (server_print s VERBOSITY_WARNING
                    [''Read connection error. Closing'', c_ip (s_objs s r)]) r)
      | Recv_TimeoutError \<Rightarrow>
          Inr (server_disconnect
                 (server_print s VERBOSITY_WARNING
                    [''Read connection error. Closing'', c_ip (s_objs s r)]) r))"

subsection \<open>The watchdog\<close>

lemma length_clients_disconnect:
  "length (s_clients (server_disconnect s r)) \<le> length (s_clients s)"
  by (simp add: server_disconnect_def length_remove1)

text \<open>
  \<open>NetServer.disconnect_if_timeout\<close>. The \<open>for\<close> loop walks \<open>self.clients\<close> by position
  while \<open>disconnect\<close> removes from that same list: \<open>i\<close> is the position of the iterator,
  \<open>disconnected\<close> the list of addresses collected so far. \<open>now\<close> is the value of
  \<open>time.time()\<close> and \<open>fsub\<close> the subtraction of Python floats, which rounds.
\<close>

function timeout_loop ::
  "(real \<Rightarrow> real \<Rightarrow> real) \<Rightarrow> server \<Rightarrow> real \<Rightarrow> nat \<Rightarrow> string list \<Rightarrow> string list \<times> server" where
  "timeout_loop fsub s now i disconnected =
     (if i < length (s_clients s) then
        let r = s_clients s ! i in
        if c_watchDog (s_objs s r) < fsub now 5
        then timeout_loop fsub (server_disconnect s r) now (Suc i)
               (disconnected @ [c_ip (s_objs s r)])
        else timeout_loop fsub s now (Suc i) disconnected
      else (disconnected, s))"
  by pat_completeness auto
termination
proof (relation "measure (\<lambda>(fsub, s, now, i, disconnected). length (s_clients s) - i)")
  show "wf (measure (\<lambda>(fsub, s, now, i, disconnected). length (s_clients s) - i))"
    by simp
next
  fix fsub :: "real \<Rightarrow> real \<Rightarrow> real" and s :: server and now :: real and i :: nat
    and disconnected :: "string list" and r
  assume "i < length (s_clients s)"
  then show "((fsub, s, now, Suc i, disconnected), (fsub, s, now, i, disconnected))
      \<in> measure (\<lambda>(fsub, s, now, i, disconnected). length (s_clients s) - i)"
    by simp
next
  fix fsub :: "real \<Rightarrow> real \<Rightarrow> real" and s :: server and now :: real and i :: nat
    and disconnected :: "string list" and r
  assume "i < length (s_clients s)"
  moreover have "length (s_clients (server_disconnect s r)) \<le> length (s_clients s)"
    by (rule length_clients_disconnect)
  ultimately show "((fsub, server_disconnect s r, now, Suc i, disconnected @ [c_ip (s_objs s r)]),
      (fsub, s, now, i, disconnected))
      \<in> measure (\<lambda>(fsub, s, now, i, disconnected). length (s_clients s) - i)"
    by simp
qed

declare timeout_loop.simps [simp del]

definition disconnect_if_timeout ::
  "(real \<Rightarrow> real \<Rightarrow> real) \<Rightarrow> server \<Rightarrow> real \<Rightarrow> string list \<times> server" where
  "disconnect_if_timeout fsub s now = timeout_loop fsub s now 0 []"

subsection \<open>Writing to the clients\<close>

text \<open>
  What \<open>sock.send(client['outb'])\<close> does in \<open>_write_all\<close>: it returns the number of bytes
  that were sent, or raises an \<open>OSError\<close> (\<open>ConnectionError\<close> is one).
\<close>

datatype send_result = Sent nat | Send_OSError

lemma clients_server_print [simp]: "s_clients (server_print s level arg) = s_clients s"
  by (simp add: server_print_def)

text \<open>
  \<open>NetServer._write_all\<close>. As in \<open>disconnect_if_timeout\<close>, the \<open>for\<close> loop walks
  \<open>self.clients\<close> by position while \<open>disconnect\<close> removes from that list. \<open>out i\<close> is what
  \<open>send\<close> does for the client at position \<open>i\<close> of the iterator.
\<close>

function write_loop :: "server \<Rightarrow> (nat \<Rightarrow> send_result) \<Rightarrow> nat \<Rightarrow> server" where
  "write_loop s out i =
     (if i < length (s_clients s) then
        let r = s_clients s ! i in
        if c_outb (s_objs s r) \<noteq> [] then
          (case out i of
             Sent sent \<Rightarrow>
               write_loop
                 (s\<lparr> s_objs := (s_objs s)
                       (r := (s_objs s r)\<lparr> c_outb := drop sent (c_outb (s_objs s r)) \<rparr>) \<rparr>)
                 out (Suc i)
           | Send_OSError \<Rightarrow>
               write_loop
                 (server_disconnect
                    (server_print s VERBOSITY_WARNING
                       [''Write connection error. Closing'', c_ip (s_objs s r)]) r)
                 out (Suc i))
        else write_loop s out (Suc i)
      else s)"
  by pat_completeness auto
termination
proof (relation "measure (\<lambda>(s, out, i). length (s_clients s) - i)")
  show "wf (measure (\<lambda>(s, out, i). length (s_clients s) - i))"
    by simp
next
  fix s :: server and out :: "nat \<Rightarrow> send_result" and i :: nat and x b
  assume "i < length (s_clients s)"
  then show "((s\<lparr> s_objs := (s_objs s)(x := (s_objs s x)\<lparr> c_outb := b \<rparr>) \<rparr>, out, Suc i),
      (s, out, i)) \<in> measure (\<lambda>(s, out, i). length (s_clients s) - i)"
    by simp
next
  fix s :: server and out :: "nat \<Rightarrow> send_result" and i :: nat and x arg
  assume "i < length (s_clients s)"
  moreover have "length (s_clients (server_disconnect (server_print s VERBOSITY_WARNING arg) x))
      \<le> length (s_clients s)"
    using length_clients_disconnect [of "server_print s VERBOSITY_WARNING arg" x] by simp
  ultimately show "((server_disconnect (server_print s VERBOSITY_WARNING arg) x, out, Suc i),
      (s, out, i)) \<in> measure (\<lambda>(s, out, i). length (s_clients s) - i)"
    by simp
next
  fix s :: server and out :: "nat \<Rightarrow> send_result" and i :: nat
  assume "i < length (s_clients s)"
  then show "((s, out, Suc i), (s, out, i)) \<in> measure (\<lambda>(s, out, i). length (s_clients s) - i)"
    by simp
qed

declare write_loop.simps [simp del]

definition write_all :: "server \<Rightarrow> (nat \<Rightarrow> send_result) \<Rightarrow> server" where
  "write_all s out = write_loop s out 0"

subsection \<open>The events of the server\<close>

text \<open>
  What happens to a server from outside: the listening socket yields a connection
  (\<open>_accept_connection\<close>), the selector reports a client socket as readable
  (\<open>_service_connection\<close>: \<open>_service_read\<close>, then \<open>_write_all\<close>), or the main loop calls
  \<open>disconnect_if_timeout\<close>. Each event carries what the environment decides: the reading
  of the clock, what \<open>recv\<close> returns and what each \<open>send\<close> does. A socket that \<open>loop\<close>
  got from the selector may have been closed by an earlier handler of the same batch:
  \<open>recv\<close> on a closed socket raises \<open>OSError\<close>. An exception that leaves a handler ends
  the run.
\<close>

datatype server_event =
    Accept string real
  | Readable nat recv_result real "nat \<Rightarrow> send_result"
  | Check_timeout real

fun server_step ::
  "json_reader \<Rightarrow> nat \<Rightarrow> (real \<Rightarrow> real \<Rightarrow> real) \<Rightarrow> server \<Rightarrow> server_event \<Rightarrow> error + server" where
  "server_step rd depth fsub s (Accept ip now) = Inr (accept_connection s ip now)"
| "server_step rd depth fsub s (Readable r res now out) =
     (case service_read rd depth s r
             (if c_sock_open (s_objs s r) then res else Recv_OSError) now of
        Inl e \<Rightarrow> Inl e
      | Inr s' \<Rightarrow> Inr (write_all s' out))"
| "server_step rd depth fsub s (Check_timeout now) = Inr (snd (disconnect_if_timeout fsub s now))"

fun run_server ::
  "json_reader \<Rightarrow> nat \<Rightarrow> (real \<Rightarrow> real \<Rightarrow> real) \<Rightarrow> server \<Rightarrow> server_event list \<Rightarrow> error + server" where
  "run_server rd depth fsub s [] = Inr s"
| "run_server rd depth fsub s (ev # evs) =
     (case server_step rd depth fsub s ev of
        Inl e \<Rightarrow> Inl e
      | Inr s' \<Rightarrow> run_server rd depth fsub s' evs)"

text \<open>\<open>NetServer.__init__\<close> followed by the assignment of the allowed groups: no clients.\<close>

definition new_server :: "string list \<Rightarrow> string list \<Rightarrow> server" where
  "new_server grps names =
     \<lparr> s_objs = (\<lambda>r. \<lparr> c_ip = '''', c_name = '''', c_group = '''', c_addr = UNKNOWN_ADDR,
                        c_inb = [], c_outb = [], c_sock_open = False, c_watchDog = 0 \<rparr>),
       s_clients = [], s_groups = grps, s_verbosity = VERBOSITY_INFO, s_log = [],
       s_random_names = names, s_next = 0 \<rparr>"

subsection \<open>Addresses within a group\<close>

text \<open>
  The condition on the client list that the relay relies on: the list holds no reference
  twice, every reference in it has been handed out, every client that belongs to a group
  holds a one-byte address in \<open>1..254\<close>, and two different clients of one group hold
  different addresses. A client belongs to a group when its \<open>group\<close> field is not the empty
  string (the test of \<open>_process_frame\<close>).
\<close>

definition server_inv :: "server \<Rightarrow> bool" where
  "server_inv s \<longleftrightarrow>
     distinct (s_clients s) \<and>
     (\<forall>x\<in>set (s_clients s). x < s_next s) \<and>
     (\<forall>x\<in>set (s_clients s). c_group (s_objs s x) \<noteq> '''' \<longrightarrow>
        (\<exists>a. 1 \<le> a \<and> a \<le> 254 \<and> c_addr (s_objs s x) = be_bytes 1 a)) \<and>
     (\<forall>x\<in>set (s_clients s). \<forall>y\<in>set (s_clients s).
        x \<noteq> y \<and> c_group (s_objs s x) = c_group (s_objs s y) \<and> c_group (s_objs s x) \<noteq> ''''
          \<longrightarrow> c_addr (s_objs s x) \<noteq> c_addr (s_objs s y))"

section \<open>A server with four clients\<close>

text \<open>
  The AUTH frame that \<open>NetNode._send_auth\<close> of a node without an address puts on the
  wire, its payload, and a reader that parses the payload of four such frames as
  \<open>json.loads\<close> does.
\<close>

definition auth_payload :: "string \<Rightarrow> string \<Rightarrow> bytes" where
  "auth_payload nm grp = dumps (JDict [(''name'', JStr nm), (''group'', JStr grp)])"

definition auth_frame :: "string \<Rightarrow> string \<Rightarrow> bytes" where
  "auth_frame nm grp =
     (case encode_frame UNKNOWN_ADDR
             \<lparr> f_dest = SERVER_ADDR, f_type = FRAME_TYPE_AUTH,
               f_data = Some (JDict [(''name'', JStr nm), (''group'', JStr grp)]),
               f_meta = None \<rparr> of
        Inl e \<Rightarrow> []
      | Inr bs \<Rightarrow> bs)"

definition auth_reader :: json_reader where
  "auth_reader =
     \<lparr> loads_msgs = (\<lambda>b. Inl JSONDecodeError),
       loads_peers = (\<lambda>b. Inl JSONDecodeError),
       loads_sysm = (\<lambda>b. Inl JSONDecodeError),
       loads_auth = (\<lambda>b.
         case find (\<lambda>p. auth_payload (fst p) (snd p) = b)
                [(''a'', ''g''), (''b'', ''g''), (''c'', ''h''), (''d'', ''g'')] of
           Some p \<Rightarrow> Inr p
         | None \<Rightarrow> Inl JSONDecodeError) \<rparr>"

text \<open>
  Four clients connect to a new server that allows the groups \<open>g\<close> and \<open>h\<close>; the first
  three authenticate, as \<open>a\<close> and \<open>b\<close> in \<open>g\<close> and as \<open>c\<close> in \<open>h\<close>. Every \<open>send\<close> of the
  server takes all the bytes it is given: the 37 bytes of a PEERS frame that lists one
  client, the 63 bytes of one that lists two.
\<close>

definition example_events :: "server_event list" where
  "example_events =
     [Accept ''10.0.0.1'' 0,
      Readable 0 (Received (auth_frame ''a'' ''g'')) 1 (\<lambda>i. Sent 37),
      Accept ''10.0.0.2'' 2,
      Readable 1 (Received (auth_frame ''b'' ''g'')) 3 (\<lambda>i. Sent 63),
      Accept ''10.0.0.3'' 4,
      Readable 2 (Received (auth_frame ''c'' ''h'')) 5 (\<lambda>i. Sent 37),
      Accept ''10.0.0.4'' 6]"

text \<open>The server after these events (lemma \<open>example_run\<close> below).\<close>

definition example_server :: server where
  "example_server =
     \<lparr> s_objs = (\<lambda>r.
         if r = 0 then
           \<lparr> c_ip = ''10.0.0.1'', c_name = ''a'', c_group = ''g'', c_addr = [1],
             c_inb = [], c_outb = [], c_sock_open = True, c_watchDog = 0 \<rparr>
         else if r = 1 then
           \<lparr> c_ip = ''10.0.0.2'', c_name = ''b'', c_group = ''g'', c_addr = [2],
             c_inb = [], c_outb = [], c_sock_open = True, c_watchDog = 2 \<rparr>
         else if r = 2 then
           \<lparr> c_ip = ''10.0.0.3'', c_name = ''c'', c_group = ''h'', c_addr = [1],
             c_inb = [], c_outb = [], c_sock_open = True, c_watchDog = 4 \<rparr>
         else if r = 3 then
           \<lparr> c_ip = ''10.0.0.4'', c_name = '''', c_group = '''', c_addr = UNKNOWN_ADDR,
             c_inb = [], c_outb = [], c_sock_open = True, c_watchDog = 6 \<rparr>
         else
           \<lparr> c_ip = '''', c_name = '''', c_group = '''', c_addr = UNKNOWN_ADDR,
             c_inb = [], c_outb = [], c_sock_open = False, c_watchDog = 0 \<rparr>),
       s_clients = [0, 1, 2, 3], s_groups = [''g'', ''h''], s_verbosity = VERBOSITY_INFO,
       s_log = [[''Auth passed'', ''a'', ''g''], [''Auth passed'', ''b'', ''g''],
                [''Auth passed'', ''c'', ''h'']],
       s_random_names = [''Ant''], s_next = 4 \<rparr>"

text \<open>The DATA frame that \<open>NetNode._send_data_frame\<close> of the client \<open>a\<close> (address 1) puts
  on the wire for one message and the destination \<open>dest\<close>.\<close>

definition data_frame :: "bytes \<Rightarrow> bytes" where
  "data_frame dest =
     (case encode_frame [1]
             \<lparr> f_dest = dest, f_type = FRAME_TYPE_DATA,
               f_data = Some (JList [envelope_json
                          \<lparr> e_title = ''x'', e_content = JInt 1, e_queue = False \<rparr>]),
               f_meta = None \<rparr> of
        Inl e \<Rightarrow> []
      | Inr bs \<Rightarrow> bs)"


section \<open>The codec: facts\<close>


lemma be_bytes_4:
  "be_bytes 4 n = [of_nat (n div 256 div 256 div 256 mod 256), of_nat (n div 256 div 256 mod 256),
     of_nat (n div 256 mod 256), of_nat (n mod 256)]"
proof -
  have four: "(4::nat) = Suc (Suc (Suc (Suc 0)))"
    by simp
  show ?thesis
    unfolding four by simp
qed


lemma decode_after_header:
  assumes "length len4 = 4" "length dst = 1" "length sdr = 1" "length typ = 1"
    "length met = 1"
  shows "decode_frame (len4 @ VERSION @ dst @ sdr @ typ @ met @ payload) =
    Inr \<lparr> d_version = VERSION, d_dest = dst, d_sender = sdr, d_type = typ, d_meta = met,
          d_data = payload \<rparr>"
  using assms by (simp add: decode_frame_def slice_def VERSION_def)




section \<open>The client node: facts\<close>

subsection \<open>Sending to an unknown name\<close>

text \<open>
  Claim C10. When \<open>name\<close> is not \<open>"ALL"\<close> and not a key of the peer map, \<open>send_msg\<close> returns
  \<open>False\<close> and the node is exactly as before: the pending outbound data, the output
  buffer and everything else are unchanged. \<open>send_msg\<close> has no exceptional outcome.
\<close>

theorem send_msg_unknown_name:
  assumes "nm \<noteq> ''ALL''" and "nm \<notin> fst ` set (n_peers s)"
  shows "send_msg s nm title content queue = (False, s)"
proof -
  from assms(2) have "map_of (n_peers s) nm = None"
    by (simp add: map_of_eq_None_iff)
  with assms(1) have "get_peer_addr s nm = None"
    by (simp add: get_peer_addr_def)
  then show ?thesis
    by (simp add: send_msg_def)
qed

theorem send_msg_unknown_name_witness:
  "''carol'' \<noteq> ''ALL'' \<and>
   send_msg \<lparr> n_inBuf = [], n_outBuf = [], n_heartBeatTime = 0, n_in_data = Map.empty,
              n_out_data = [([2], [\<lparr> e_title = ''x'', e_content = JInt 1, e_queue = False \<rparr>])],
              n_peers = [(''alice'', [1]), (''bob'', [2])], n_my_addr = [1],
              n_name = ''alice'', n_socket_open = True \<rparr>
     ''carol'' ''x'' (JInt 7) True =
   (False,
    \<lparr> n_inBuf = [], n_outBuf = [], n_heartBeatTime = 0, n_in_data = Map.empty,
      n_out_data = [([2], [\<lparr> e_title = ''x'', e_content = JInt 1, e_queue = False \<rparr>])],
      n_peers = [(''alice'', [1]), (''bob'', [2])], n_my_addr = [1],
      n_name = ''alice'', n_socket_open = True \<rparr>)"
  using send_msg_unknown_name
    [of "''carol''"
        "\<lparr> n_inBuf = [], n_outBuf = [], n_heartBeatTime = 0, n_in_data = Map.empty,
           n_out_data = [([2], [\<lparr> e_title = ''x'', e_content = JInt 1, e_queue = False \<rparr>])],
           n_peers = [(''alice'', [1]), (''bob'', [2])], n_my_addr = [1],
           n_name = ''alice'', n_socket_open = True \<rparr>"
        "''x''" "JInt 7" True]
  by simp

subsection \<open>The heartbeat frame\<close>

lemma to_bytes_15: "to_bytes 15 4 = Inr [0, 0, 0, 15]"
  by (simp add: to_bytes_def be_bytes_4)

lemma dumps_JNull: "dumps JNull = [0x6E, 0x75, 0x6C, 0x6C]"
  by (simp add: dumps_def utf8_def)

text \<open>
  Claim C5 (not met by the code). \<open>_send_heartbeat_frame\<close> passes \<open>None\<close> as data, and
  \<open>_send_frame\<close> stores it under the key \<open>'data'\<close>, so \<open>_encode_frame\<close> serializes it: every
  HEART frame the node emits is 15 bytes long, length field 15, with the four bytes
  \<open>null\<close> as payload.
\<close>

theorem heartbeat_frame_carries_null:
  "send_heartbeat_frame fadd s now =
     (if now > fadd (n_heartBeatTime s) 1
      then Inr (s\<lparr> n_heartBeatTime := now,
                  n_outBuf := n_outBuf s @ [0, 0, 0, 15] @ VERSION @ SERVER_ADDR @ n_my_addr s
                    @ FRAME_TYPE_HEART @ [0] @ [0x6E, 0x75, 0x6C, 0x6C] \<rparr>)
      else Inr s)"
  by (simp add: send_heartbeat_frame_def send_frame_def encode_frame_def construct_frame_def
      node_send_bytes_def dumps_JNull HEADER_SIZE_def to_bytes_15)

subsection \<open>Disconnecting\<close>

text \<open>
  Claim C9 (not met by the code). \<open>disconnect\<close> calls \<open>_send_req\<close> with one argument where
  two are required: every call raises \<open>TypeError\<close>, nothing is put into the output buffer
  and the socket is not closed.
\<close>

theorem disconnect_raises_TypeError: "disconnect s = Inl TypeError"
  by (simp add: disconnect_def call_send_req_def)

subsection \<open>The inbound buffer of the node\<close>

lemma from_bytes_200000: "from_bytes [0, 3, 13, 64] = 200000"
  by (simp add: from_bytes_def)

lemma get_frame_incomplete:
  "length buf \<ge> 4 \<Longrightarrow> length buf < from_bytes (take 4 buf) \<Longrightarrow> get_frame buf = (None, buf)"
  by (simp add: get_frame_def Let_def)

lemma process_inbuf_incomplete:
  "get_frame (n_inBuf s) = (None, n_inBuf s) \<Longrightarrow> process_inbuf rd depth s = Inr s"
  by (simp add: process_inbuf.simps)

text \<open>
  Claim C7 (not met by the node). \<open>process_recv\<close> never compares the buffer with
  \<open>IN_BUFFER_LIMIT\<close>. A node that reads the first 102407 bytes of a 200000-byte frame
  keeps all of them buffered and keeps its socket open.
\<close>

theorem node_buffer_exceeds_limit:
  "process_recv rd depth
     \<lparr> n_inBuf = [], n_outBuf = [], n_heartBeatTime = 0, n_in_data = Map.empty,
       n_out_data = [], n_peers = [], n_my_addr = UNKNOWN_ADDR, n_name = ''alice'',
       n_socket_open = True \<rparr>
     [[0, 3, 13, 64] @ VERSION @ replicate 102400 0] =
   Inr \<lparr> n_inBuf = [0, 3, 13, 64] @ VERSION @ replicate 102400 0, n_outBuf = [],
         n_heartBeatTime = 0, n_in_data = Map.empty, n_out_data = [], n_peers = [],
         n_my_addr = UNKNOWN_ADDR, n_name = ''alice'', n_socket_open = True \<rparr> \<and>
   length ([0, 3, 13, 64] @ VERSION @ replicate 102400 (0 :: 8 word)) > IN_BUFFER_LIMIT"
proof -
  let ?buf = "[0, 3, 13, 64] @ VERSION @ replicate 102400 (0 :: 8 word)"
  have len: "length ?buf = 102407"
    by (simp add: VERSION_def)
  have t4: "take 4 ?buf = [0, 3, 13, 64]"
    by simp
  have fb: "from_bytes (take 4 ?buf) = 200000"
    unfolding t4 by (rule from_bytes_200000)
  have "4 \<le> length ?buf" and "length ?buf < from_bytes (take 4 ?buf)"
    unfolding fb len by simp_all
  then have "get_frame ?buf = (None, ?buf)"
    by (rule get_frame_incomplete)
  then have "process_inbuf rd depth \<lparr> n_inBuf = ?buf, n_outBuf = [],
         n_heartBeatTime = 0, n_in_data = Map.empty, n_out_data = [], n_peers = [],
         n_my_addr = UNKNOWN_ADDR, n_name = ''alice'', n_socket_open = True \<rparr> = Inr \<lparr> n_inBuf = ?buf, n_outBuf = [],
         n_heartBeatTime = 0, n_in_data = Map.empty, n_out_data = [], n_peers = [],
         n_my_addr = UNKNOWN_ADDR, n_name = ''alice'', n_socket_open = True \<rparr>"
    by (intro process_inbuf_incomplete) simp
  then show ?thesis
    using len by (simp add: process_recv_def IN_BUFFER_LIMIT_def)
qed

subsection \<open>The inbound message store\<close>

lemma stored_Recv:
  "stored (store_step s (Recv sn m)) sn' t' =
     (if sn' = sn \<and> t' = e_title m
      then (if e_queue m then stored s sn' t' @ [e_content m] else [e_content m])
      else stored s sn' t')"
  by (auto simp: stored_def store_message_def Let_def split: option.splits)

lemma stored_Get_msg:
  "stored (store_step s (Get_msg sn t clear)) sn' t' =
     (if sn' = sn \<and> t' = t \<and> clear then tl (stored s sn' t') else stored s sn' t')"
  by (auto simp: stored_def get_msg_def split: option.splits)

lemma stored_Get_all_msgs:
  "stored (store_step s (Get_all_msgs sn t clear)) sn' t' =
     (if sn' = sn \<and> t' = t \<and> clear then [] else stored s sn' t')"
  by (auto simp: stored_def get_all_msgs_def split: option.splits)

lemma run_store_snoc: "run_store s (evs @ [e]) = store_step (run_store s evs) e"
  by (simp add: run_store_def)

lemma run_store_append: "run_store s (evs @ evs') = run_store (run_store s evs) evs'"
  by (simp add: run_store_def)

lemma stored_overwritten:
  assumes "\<forall>e\<in>set later. \<not> recv_for sn t e" and "stored s sn t = [] \<or> stored s sn t = [c]"
  shows "stored (run_store s later) sn t = [] \<or> stored (run_store s later) sn t = [c]"
  using assms
proof (induction later rule: rev_induct)
  case Nil
  then show ?case by (simp add: run_store_def)
next
  case (snoc e later)
  then have ih: "stored (run_store s later) sn t = [] \<or> stored (run_store s later) sn t = [c]"
    by simp
  from snoc.prems have "\<not> recv_for sn t e"
    by simp
  with ih show ?case
    by (cases e) (auto simp: run_store_snoc stored_Recv stored_Get_msg stored_Get_all_msgs
        simp del: store_step.simps)
qed

lemma stored_unread:
  assumes "\<forall>e\<in>set later. \<not> recv_for sn t e \<and> \<not> read_of sn t e"
  shows "stored (run_store s later) sn t = stored s sn t"
  using assms
proof (induction later rule: rev_induct)
  case Nil
  then show ?case by (simp add: run_store_def)
next
  case (snoc e later)
  then show ?case
    by (cases e) (auto simp: run_store_snoc stored_Recv stored_Get_msg stored_Get_all_msgs
        simp del: store_step.simps)
qed

lemma contents_for_snoc:
  "contents_for sn t (evs @ [e]) =
     contents_for sn t evs @ (case e of Recv sn' m \<Rightarrow> if sn' = sn \<and> e_title m = t then [e_content m] else [] | _ \<Rightarrow> [])"
  by (induction sn t evs rule: contents_for.induct) (auto split: store_event.splits)

lemma stored_queued:
  assumes "\<forall>e\<in>set evs. (recv_for sn t e \<longrightarrow> queues e) \<and> \<not> read_of sn t e"
  shows "stored (run_store s evs) sn t = stored s sn t @ contents_for sn t evs"
  using assms
proof (induction evs rule: rev_induct)
  case Nil
  then show ?case by (simp add: run_store_def)
next
  case (snoc e evs)
  then show ?case
    by (cases e)
      (auto simp: run_store_snoc contents_for_snoc stored_Recv stored_Get_msg
        stored_Get_all_msgs simp del: store_step.simps)
qed

lemma get_msg_oldest:
  "stored s sn t \<noteq> [] \<Longrightarrow>
     fst (get_msg s sn t True) = Some (hd (stored s sn t)) \<and>
     stored (snd (get_msg s sn t True)) sn t = tl (stored s sn t)"
  by (auto simp: stored_def get_msg_def split: option.splits)

lemma get_all_msgs_drains:
  "stored s sn t \<noteq> [] \<Longrightarrow>
     fst (get_all_msgs s sn t True) = Some (stored s sn t) \<and>
     stored (snd (get_all_msgs s sn t True)) sn t = []"
  by (auto simp: stored_def get_all_msgs_def split: option.splits)

lemma available_stored: "available s sn t = length (stored s sn t)"
  by (auto simp: stored_def available_def split: option.splits)

lemma run_store_Recvs:
  "run_store s (map (Recv sn) msgs) =
     s\<lparr> n_in_data := foldl (store_message sn) (n_in_data s) msgs \<rparr>"
  by (induction msgs arbitrary: s) (simp_all add: run_store_def)

lemma node_process_dataframe_run:
  "loads_msgs rd (d_data d) = Inr msgs \<Longrightarrow>
     node_process_dataframe rd s d =
       Inr (run_store s (map (Recv (get_name_from_addr s (d_sender d))) msgs))"
  by (simp add: node_process_dataframe_def run_store_Recvs)

text \<open>
  Claim C2. A DATA frame is processed as the sequence of its envelopes, each stored under
  the sender's name and its title. (1) When the most recent envelope for a sender and
  title had \<open>queue = False\<close>, the store holds for that pair nothing or exactly the content
  of that envelope, whatever was stored or read before and whatever reads and envelopes
  for other pairs follow; it holds exactly that content while no read has removed it.
  (2) While the envelopes for a pair have \<open>queue = True\<close> and nothing is read from it,
  their contents are appended to what was stored, in arrival order; \<open>get_msg\<close> returns
  and removes the oldest stored content. (3) Two envelopes with title \<open>x\<close>, contents 1
  and 2 and \<open>queue = False\<close> leave exactly the one value 2.
\<close>

theorem inbound_store_overwrite_and_queue:
  "(loads_msgs rd (d_data d) = Inr msgs \<longrightarrow>
      node_process_dataframe rd s d =
        Inr (run_store s (map (Recv (get_name_from_addr s (d_sender d))) msgs))) \<and>
   (\<not> e_queue m \<and> (\<forall>e\<in>set later. \<not> recv_for sn (e_title m) e) \<longrightarrow>
      (stored (run_store s (earlier @ Recv sn m # later)) sn (e_title m) = [] \<or>
       stored (run_store s (earlier @ Recv sn m # later)) sn (e_title m) = [e_content m]) \<and>
      ((\<forall>e\<in>set later. \<not> read_of sn (e_title m) e) \<longrightarrow>
         stored (run_store s (earlier @ Recv sn m # later)) sn (e_title m) = [e_content m])) \<and>
   ((\<forall>e\<in>set evs. (recv_for sn t e \<longrightarrow> queues e) \<and> \<not> read_of sn t e) \<longrightarrow>
      stored (run_store s evs) sn t = stored s sn t @ contents_for sn t evs) \<and>
   (stored s sn t \<noteq> [] \<longrightarrow>
      fst (get_msg s sn t True) = Some (hd (stored s sn t)) \<and>
      stored (snd (get_msg s sn t True)) sn t = tl (stored s sn t)) \<and>
   stored (run_store s
       [Recv sn \<lparr> e_title = ''x'', e_content = JInt 1, e_queue = False \<rparr>,
        Recv sn \<lparr> e_title = ''x'', e_content = JInt 2, e_queue = False \<rparr>]) sn ''x'' = [JInt 2]"
proof (intro conjI impI)
  assume "loads_msgs rd (d_data d) = Inr msgs"
  then show "node_process_dataframe rd s d =
      Inr (run_store s (map (Recv (get_name_from_addr s (d_sender d))) msgs))"
    by (rule node_process_dataframe_run)
next
  assume a: "\<not> e_queue m \<and> (\<forall>e\<in>set later. \<not> recv_for sn (e_title m) e)"
  let ?s1 = "run_store s (earlier @ [Recv sn m])"
  have split: "run_store s (earlier @ Recv sn m # later) = run_store ?s1 later"
    by (simp add: run_store_def)
  from a have "stored ?s1 sn (e_title m) = [e_content m]"
    by (simp add: run_store_snoc stored_Recv del: store_step.simps)
  with a show "stored (run_store s (earlier @ Recv sn m # later)) sn (e_title m) = [] \<or>
      stored (run_store s (earlier @ Recv sn m # later)) sn (e_title m) = [e_content m]"
    unfolding split
    using stored_overwritten [of later sn "e_title m" ?s1 "e_content m"] by simp
next
  assume a: "\<not> e_queue m \<and> (\<forall>e\<in>set later. \<not> recv_for sn (e_title m) e)"
    and b: "\<forall>e\<in>set later. \<not> read_of sn (e_title m) e"
  let ?s1 = "run_store s (earlier @ [Recv sn m])"
  have split: "run_store s (earlier @ Recv sn m # later) = run_store ?s1 later"
    by (simp add: run_store_def)
  from a have now: "stored ?s1 sn (e_title m) = [e_content m]"
    by (simp add: run_store_snoc stored_Recv del: store_step.simps)
  from a b have "stored (run_store ?s1 later) sn (e_title m) = stored ?s1 sn (e_title m)"
    using stored_unread [of later sn "e_title m" ?s1] by simp
  with now show "stored (run_store s (earlier @ Recv sn m # later)) sn (e_title m) =
      [e_content m]"
    unfolding split by simp
next
  assume "\<forall>e\<in>set evs. (recv_for sn t e \<longrightarrow> queues e) \<and> \<not> read_of sn t e"
  then show "stored (run_store s evs) sn t = stored s sn t @ contents_for sn t evs"
    by (rule stored_queued)
next
  assume ne: "stored s sn t \<noteq> []"
  then show "fst (get_msg s sn t True) = Some (hd (stored s sn t))"
    by (simp add: get_msg_oldest)
  from ne show "stored (snd (get_msg s sn t True)) sn t = tl (stored s sn t)"
    by (simp add: get_msg_oldest)
next
  show "stored (run_store s
       [Recv sn \<lparr> e_title = ''x'', e_content = JInt 1, e_queue = False \<rparr>,
        Recv sn \<lparr> e_title = ''x'', e_content = JInt 2, e_queue = False \<rparr>]) sn ''x'' = [JInt 2]"
    by (simp add: run_store_def stored_Recv del: store_step.simps)
qed

theorem inbound_store_overwrite_and_queue_witness:
  "node_process_dataframe example_reader example_node
      \<lparr> d_version = VERSION, d_dest = [1], d_sender = [2], d_type = FRAME_TYPE_DATA,
        d_meta = [0], d_data = [] \<rparr> =
     Inr (run_store example_node
       [Recv (Some ''bob'') \<lparr> e_title = ''x'', e_content = JInt 1, e_queue = False \<rparr>,
        Recv (Some ''bob'') \<lparr> e_title = ''x'', e_content = JInt 2, e_queue = False \<rparr>]) \<and>
   stored (run_store example_node
       ([Recv (Some ''bob'') \<lparr> e_title = ''x'', e_content = JInt 0, e_queue = True \<rparr>] @
        Recv (Some ''bob'') \<lparr> e_title = ''x'', e_content = JInt 1, e_queue = False \<rparr> #
        [Get_msg (Some ''bob'') ''q'' True]))
     (Some ''bob'') ''x'' = [JInt 1] \<and>
   stored (run_store example_node
       [Recv (Some ''bob'') \<lparr> e_title = ''q'', e_content = JInt 1, e_queue = True \<rparr>,
        Recv (Some ''bob'') \<lparr> e_title = ''q'', e_content = JInt 2, e_queue = True \<rparr>])
     (Some ''bob'') ''q'' = [JInt 5, JInt 1, JInt 2] \<and>
   fst (get_msg example_node (Some ''bob'') ''q'' True) = Some (JInt 5) \<and>
   stored (snd (get_msg example_node (Some ''bob'') ''q'' True)) (Some ''bob'') ''q'' = []"
  using inbound_store_overwrite_and_queue
    [where rd = example_reader and s = example_node
       and d = "\<lparr> d_version = VERSION, d_dest = [1], d_sender = [2], d_type = FRAME_TYPE_DATA,
                  d_meta = [0], d_data = [] \<rparr>"
       and msgs = "[\<lparr> e_title = ''x'', e_content = JInt 1, e_queue = False \<rparr>,
                    \<lparr> e_title = ''x'', e_content = JInt 2, e_queue = False \<rparr>]"
       and m = "\<lparr> e_title = ''x'', e_content = JInt 1, e_queue = False \<rparr>"
       and sn = "Some ''bob''"
       and earlier = "[Recv (Some ''bob'') \<lparr> e_title = ''x'', e_content = JInt 0, e_queue = True \<rparr>]"
       and later = "[Get_msg (Some ''bob'') ''q'' True]"
       and evs = "[Recv (Some ''bob'') \<lparr> e_title = ''q'', e_content = JInt 1, e_queue = True \<rparr>,
                   Recv (Some ''bob'') \<lparr> e_title = ''q'', e_content = JInt 2, e_queue = True \<rparr>]"
       and t = "''q''"]
  by (simp add: example_reader_def example_node_def stored_def get_name_from_addr_def)

section \<open>The relay server: facts\<close>

subsection \<open>What decides addresses\<close>

text \<open>The part of the state that decides addresses: the client list, the reference counter
  and every client's group and address.\<close>

definition addressing :: "server \<Rightarrow> nat list \<times> nat \<times> (nat \<Rightarrow> string \<times> bytes)" where
  "addressing s =
     (s_clients s, s_next s, \<lambda>x. (c_group (s_objs s x), c_addr (s_objs s x)))"

lemma addressing_eqD:
  assumes "addressing s' = addressing s"
  shows "s_clients s' = s_clients s" and "s_next s' = s_next s"
    and "c_group (s_objs s' x) = c_group (s_objs s x)"
    and "c_addr (s_objs s' x) = c_addr (s_objs s x)"
  using assms by (auto simp: addressing_def dest: fun_cong [where x = x])

lemma server_inv_addressing:
  assumes "addressing s' = addressing s"
  shows "server_inv s' = server_inv s"
  by (simp add: server_inv_def addressing_eqD [OF assms])

lemma get_client_by_addr_addressing:
  assumes "addressing s' = addressing s"
  shows "get_client_by_addr s' a g = get_client_by_addr s a g"
  by (simp add: get_client_by_addr_def addressing_eqD [OF assms])

lemma get_free_addr_addressing:
  assumes "addressing s' = addressing s"
  shows "get_free_addr s' g = get_free_addr s g"
  by (simp add: get_free_addr_def get_client_by_addr_addressing [OF assms])

lemma addressing_server_print [simp]: "addressing (server_print s level arg) = addressing s"
  by (simp add: addressing_def server_print_def)

lemma addressing_server_send_bytes [simp]:
  "addressing (server_send_bytes s r data) = addressing s"
  by (auto simp: addressing_def server_send_bytes_def)

lemma addressing_foldl_send:
  "addressing (foldl (\<lambda>s' r. if P s' r then server_send_bytes s' r data else s') s rs) =
     addressing s"
  by (induction rs arbitrary: s) simp_all

lemma addressing_send_peers_frame:
  "send_peers_frame s grp = Inr s' \<Longrightarrow> addressing s' = addressing s"
  using addressing_foldl_send [where P = "\<lambda>_ _. True"]
  by (auto simp: send_peers_frame_def split: sum.splits)

lemma addressing_send_sysm_name_frame:
  "send_sysm_name_frame s r nm = Inr s' \<Longrightarrow> addressing s' = addressing s"
  by (auto simp: send_sysm_name_frame_def split: sum.splits)

lemma addressing_server_process_dataframe:
  "addressing (server_process_dataframe s r d frame) = addressing s"
  by (simp add: server_process_dataframe_def addressing_foldl_send split: option.splits)

lemma addressing_watchDog [simp]:
  "addressing (s\<lparr> s_objs := (s_objs s)(r := (s_objs s r)\<lparr> c_watchDog := t \<rparr>) \<rparr>) = addressing s"
  by (auto simp: addressing_def)

lemma addressing_inb [simp]:
  "addressing (s\<lparr> s_objs := (s_objs s)(r := (s_objs s r)\<lparr> c_inb := b \<rparr>) \<rparr>) = addressing s"
  by (auto simp: addressing_def)

lemma server_inv_disconnect: "server_inv s \<Longrightarrow> server_inv (server_disconnect s r)"
  by (auto simp: server_inv_def server_disconnect_def dest: notin_set_remove1)

lemma server_inv_accept: "server_inv s \<Longrightarrow> server_inv (accept_connection s ip now)"
  by (fastforce simp: server_inv_def accept_connection_def Let_def)

lemma server_inv_new: "server_inv (new_server grps names)"
  by (simp add: server_inv_def new_server_def)

subsection \<open>The lowest free address\<close>

lemma get_client_by_addr_None:
  "get_client_by_addr s a g = None \<longleftrightarrow>
     (\<forall>x\<in>set (s_clients s). \<not> (c_addr (s_objs s x) = a \<and> c_group (s_objs s x) = g))"
  by (auto simp: get_client_by_addr_def find_None_iff)

lemma get_client_by_addr_Some:
  "get_client_by_addr s a g = Some x \<Longrightarrow>
     x \<in> set (s_clients s) \<and> c_addr (s_objs s x) = a \<and> c_group (s_objs s x) = g"
  by (auto simp: get_client_by_addr_def find_Some_iff)

lemma find_least:
  "find P [m..<n] = Some a \<Longrightarrow> m \<le> a \<and> a < n \<and> P a \<and> (\<forall>b. m \<le> b \<and> b < a \<longrightarrow> \<not> P b)"
proof -
  assume "find P [m..<n] = Some a"
  then obtain i where i: "i < length [m..<n]" "P ([m..<n] ! i)" "a = [m..<n] ! i"
    "\<forall>j<i. \<not> P ([m..<n] ! j)"
    by (auto simp: find_Some_iff)
  then have a: "a = m + i" and lt: "m + i < n"
    by auto
  have "\<not> P b" if "m \<le> b" "b < a" for b
  proof -
    from that a have "b - m < i" by arith
    with i(4) have "\<not> P ([m..<n] ! (b - m))" by blast
    moreover from that a lt have "[m..<n] ! (b - m) = b" by simp
    ultimately show ?thesis by simp
  qed
  with i a lt show ?thesis by auto
qed

lemma get_free_addr_Some:
  assumes "get_free_addr s g = Some b"
  shows "\<exists>a. 1 \<le> a \<and> a \<le> 254 \<and> b = be_bytes 1 a \<and> get_client_by_addr s b g = None \<and>
    (\<forall>a'. 1 \<le> a' \<and> a' < a \<longrightarrow> get_client_by_addr s (be_bytes 1 a') g \<noteq> None)"
proof -
  from assms obtain a where
    f: "find (\<lambda>a. get_client_by_addr s (be_bytes 1 a) g = None) [1..<255] = Some a"
    and b: "b = be_bytes 1 a"
    by (auto simp: get_free_addr_def split: option.splits)
  from find_least [OF f] b show ?thesis
    by (intro exI [of _ a]) auto
qed

lemma get_free_addr_None:
  assumes "get_free_addr s g = None" and "1 \<le> a" and "a \<le> 254"
  shows "get_client_by_addr s (be_bytes 1 a) g \<noteq> None"
proof -
  from assms(1) have "find (\<lambda>a. get_client_by_addr s (be_bytes 1 a) g = None) [1..<255] = None"
    by (auto simp: get_free_addr_def split: option.splits)
  with assms(2,3) show ?thesis
    by (auto simp: find_None_iff)
qed

lemma server_inv_assign:
  assumes inv: "server_inv s" and free: "get_free_addr s g = Some b"
  shows "server_inv (s\<lparr> s_objs := (s_objs s)
            (r := (s_objs s r)\<lparr> c_name := nm, c_group := g, c_addr := b \<rparr>) \<rparr>)"
proof -
  from get_free_addr_Some [OF free] obtain a where
    a: "1 \<le> a" "a \<le> 254" "b = be_bytes 1 a" and nobody: "get_client_by_addr s b g = None"
    by blast
  from nobody have nb: "\<forall>x\<in>set (s_clients s). \<not> (c_addr (s_objs s x) = b \<and> c_group (s_objs s x) = g)"
    by (simp add: get_client_by_addr_None)
  from inv a nb show ?thesis
    unfolding server_inv_def by (auto simp: fun_upd_def)
qed

subsection \<open>Every handler keeps the addresses of a group distinct\<close>

lemma server_inv_print [simp]: "server_inv (server_print s level arg) = server_inv s"
  by (rule server_inv_addressing) simp

lemma auth_name_Some:
  "auth_name s r nm g = Inr (s1, Some nm') \<Longrightarrow> addressing s1 = addressing s"
  by (auto simp: auth_name_def split: if_splits option.splits sum.splits
      dest: addressing_send_sysm_name_frame)

lemma auth_name_None:
  "auth_name s r nm g = Inr (s1, None) \<Longrightarrow>
     \<exists>arg. s1 = server_disconnect (server_print s VERBOSITY_WARNING arg) r"
  by (auto simp: auth_name_def split: if_splits option.splits sum.splits)

lemma server_inv_process_authframe:
  assumes inv: "server_inv s" and ok: "process_authframe rd s r d = Inr s'"
  shows "server_inv s'"
proof -
  from ok obtain nm g where la: "loads_auth rd (d_data d) = Inr (nm, g)"
    by (cases "loads_auth rd (d_data d)") (auto simp: process_authframe_def)
  show ?thesis
  proof (cases "g \<in> set (s_groups s)")
    case False
    with ok la have "s' = server_disconnect
        (server_print s VERBOSITY_WARNING [''Auth failed. Closing'', c_ip (s_objs s r)]) r"
      by (simp add: process_authframe_def)
    with inv show ?thesis
      by (simp add: server_inv_disconnect)
  next
    case True
    from ok la True obtain s1 res where an: "auth_name s r nm g = Inr (s1, res)"
      by (cases "auth_name s r nm g") (auto simp: process_authframe_def)
    show ?thesis
    proof (cases res)
      case None
      with ok la True an have "s' = s1"
        by (simp add: process_authframe_def)
      moreover from an None obtain arg where
        "s1 = server_disconnect (server_print s VERBOSITY_WARNING arg) r"
        by (auto dest: auth_name_None)
      ultimately show ?thesis
        using inv by (simp add: server_inv_disconnect)
    next
      case (Some nm')
      let ?s2 = "server_print s1 VERBOSITY_INFO [''Auth passed'', nm', g]"
      from an Some have a1: "addressing s1 = addressing s"
        by (auto dest: auth_name_Some)
      have "addressing ?s2 = addressing s1"
        by simp
      with a1 have "addressing ?s2 = addressing s"
        by simp
      from server_inv_addressing [OF this] inv have inv2: "server_inv ?s2"
        by simp
      show ?thesis
      proof (cases "get_free_addr ?s2 g")
        case None
        with ok la True an Some have "s' = server_disconnect
            (server_print ?s2 VERBOSITY_WARNING
               [''No free addresses. Closing'', c_ip (s_objs ?s2 r)]) r"
          by (simp add: process_authframe_def Let_def)
        with inv2 show ?thesis
          by (simp add: server_inv_disconnect)
      next
        case (Some b)
        let ?s3 = "?s2\<lparr> s_objs := (s_objs ?s2)
            (r := (s_objs ?s2 r)\<lparr> c_name := nm', c_group := g, c_addr := b \<rparr>) \<rparr>"
        from ok la True an \<open>res = Some nm'\<close> Some have "send_peers_frame ?s3 g = Inr s'"
          by (simp add: process_authframe_def Let_def)
        then have "addressing s' = addressing ?s3"
          by (rule addressing_send_peers_frame)
        from server_inv_addressing [OF this] server_inv_assign [OF inv2 Some] show ?thesis
          by simp
      qed
    qed
  qed
qed

lemma server_process_frame_unfold:
  assumes "decode_frame frame = Inr d"
  shows "server_process_frame rd s r frame now =
     (if d_type d = FRAME_TYPE_AUTH then process_authframe rd s r d
      else if c_group (s_objs s r) = '''' then Inr s
      else if c_addr (s_objs s r) \<noteq> d_sender d then
        Inr (server_print s VERBOSITY_WARNING [''Forged sender addr.'', c_ip (s_objs s r)])
      else if d_type d = FRAME_TYPE_DATA
        then Inr (server_process_dataframe
               (s\<lparr> s_objs := (s_objs s)(r := (s_objs s r)\<lparr> c_watchDog := now \<rparr>) \<rparr>) r d frame)
        else Inr (s\<lparr> s_objs := (s_objs s)(r := (s_objs s r)\<lparr> c_watchDog := now \<rparr>) \<rparr>))"
  unfolding server_process_frame_def assms by (simp add: Let_def)

lemma server_process_frame_decodes:
  assumes "server_process_frame rd s r frame now = Inr s'"
  shows "\<exists>d. decode_frame frame = Inr d"
  using assms by (cases "decode_frame frame") (simp_all add: server_process_frame_def)

lemma server_inv_process_frame:
  assumes inv: "server_inv s" and ok: "server_process_frame rd s r frame now = Inr s'"
  shows "server_inv s'"
proof -
  let ?s1 = "s\<lparr> s_objs := (s_objs s)(r := (s_objs s r)\<lparr> c_watchDog := now \<rparr>) \<rparr>"
  from server_process_frame_decodes [OF ok] obtain d where d: "decode_frame frame = Inr d"
    by blast
  note unf = server_process_frame_unfold [OF d, of rd s r now]
  show ?thesis
  proof (cases "d_type d = FRAME_TYPE_AUTH")
    case True
    with ok unf have "process_authframe rd s r d = Inr s'"
      by simp
    with inv show ?thesis
      by (rule server_inv_process_authframe)
  next
    case notauth: False
    show ?thesis
    proof (cases "c_group (s_objs s r) = ''''")
      case True
      with ok unf notauth have "s' = s"
        by simp
      with inv show ?thesis
        by simp
    next
      case grp: False
      show ?thesis
      proof (cases "c_addr (s_objs s r) = d_sender d")
        case False
        with ok unf notauth grp have
          "s' = server_print s VERBOSITY_WARNING [''Forged sender addr.'', c_ip (s_objs s r)]"
          by simp
        with inv show ?thesis
          by simp
      next
        case True
        have a1: "addressing ?s1 = addressing s"
          by simp
        show ?thesis
        proof (cases "d_type d = FRAME_TYPE_DATA")
          case True
          with ok unf notauth grp \<open>c_addr (s_objs s r) = d_sender d\<close>
          have "s' = server_process_dataframe ?s1 r d frame"
            by simp
          then have "addressing s' = addressing ?s1"
            by (simp add: addressing_server_process_dataframe)
          with a1 have "addressing s' = addressing s"
            by simp
          from server_inv_addressing [OF this] inv show ?thesis
            by simp
        next
          case False
          with ok unf notauth grp \<open>c_addr (s_objs s r) = d_sender d\<close> have "s' = ?s1"
            by simp
          with a1 have "addressing s' = addressing s"
            by simp
          from server_inv_addressing [OF this] inv show ?thesis
            by simp
        qed
      qed
    qed
  qed
qed

lemma server_inv_process_buf:
  "server_inv s \<Longrightarrow> process_buf rd depth s r now = Inr s' \<Longrightarrow> server_inv s'"
proof (induction depth arbitrary: s)
  case 0
  obtain fo rest where gf: "get_frame (c_inb (s_objs s r)) = (fo, rest)"
    by (cases "get_frame (c_inb (s_objs s r))")
  let ?s0 = "s\<lparr> s_objs := (s_objs s)(r := (s_objs s r)\<lparr> c_inb := rest \<rparr>) \<rparr>"
  have "addressing ?s0 = addressing s"
    by simp
  from server_inv_addressing [OF this] "0.prems"(1) have inv0: "server_inv ?s0"
    by simp
  show ?case
  proof (cases fo)
    case None
    with gf "0.prems"(2) have "s' = ?s0"
      by (simp add: process_buf.simps [of rd 0 s])
    with inv0 show ?thesis by simp
  next
    case (Some fb)
    with gf "0.prems"(2) show ?thesis
      by (cases "server_process_frame rd ?s0 r fb now")
        (simp_all add: process_buf.simps [of rd 0 s])
  qed
next
  case (Suc depth)
  obtain fo rest where gf: "get_frame (c_inb (s_objs s r)) = (fo, rest)"
    by (cases "get_frame (c_inb (s_objs s r))")
  let ?s0 = "s\<lparr> s_objs := (s_objs s)(r := (s_objs s r)\<lparr> c_inb := rest \<rparr>) \<rparr>"
  have "addressing ?s0 = addressing s"
    by simp
  from server_inv_addressing [OF this] Suc.prems(1) have inv0: "server_inv ?s0"
    by simp
  show ?case
  proof (cases fo)
    case None
    with gf Suc.prems(2) have "s' = ?s0"
      by (simp add: process_buf.simps [of rd "Suc depth" s])
    with inv0 show ?thesis by simp
  next
    case (Some fb)
    with gf Suc.prems(2) obtain s1 where
      pf: "server_process_frame rd ?s0 r fb now = Inr s1"
      and rec: "process_buf rd depth s1 r now = Inr s'"
      by (cases "server_process_frame rd ?s0 r fb now")
        (simp_all add: process_buf.simps [of rd "Suc depth" s])
    from inv0 pf have "server_inv s1"
      by (rule server_inv_process_frame)
    from Suc.IH [OF this rec] show ?thesis .
  qed
qed

lemma server_inv_service_read:
  assumes inv: "server_inv s" and ok: "service_read rd depth s r res now = Inr s'"
  shows "server_inv s'"
proof (cases res)
  case (Received recv_data)
  let ?s1 = "s\<lparr> s_objs := (s_objs s)
      (r := (s_objs s r)\<lparr> c_inb := c_inb (s_objs s r) @ recv_data \<rparr>) \<rparr>"
  have "addressing ?s1 = addressing s"
    by simp
  from server_inv_addressing [OF this] inv have inv1: "server_inv ?s1"
    by simp
  show ?thesis
  proof (cases "recv_data = []")
    case True
    with ok Received have "s' = server_disconnect
        (server_print s VERBOSITY_INFO [''Client disconnected. Closing'', c_ip (s_objs s r)]) r"
      by (simp add: service_read_def)
    with inv show ?thesis
      by (simp add: server_inv_disconnect)
  next
    case ne: False
    show ?thesis
    proof (cases "length (c_inb (s_objs ?s1 r)) > IN_BUFFER_LIMIT")
      case True
      with ok Received ne have "s' = server_disconnect
          (server_print ?s1 VERBOSITY_WARNING
             [''IN_BUFFER_LIMIT exceeded. Closing'', c_ip (s_objs ?s1 r)]) r"
        by (simp add: service_read_def Let_def)
      with inv1 show ?thesis
        by (simp add: server_inv_disconnect)
    next
      case False
      with ok Received ne have "process_buf rd depth ?s1 r now = Inr s'"
        by (simp add: service_read_def Let_def)
      with inv1 show ?thesis
        by (rule server_inv_process_buf)
    qed
  qed
next
  case Recv_OSError
  with ok have "s' = server_disconnect
      (server_print s VERBOSITY_WARNING [''Read connection error. Closing'', c_ip (s_objs s r)]) r"
    by (simp add: service_read_def)
  with inv show ?thesis
    by (simp add: server_inv_disconnect)
next
  case Recv_TimeoutError
  with ok have "s' = server_disconnect
      (server_print s VERBOSITY_WARNING [''Read connection error. Closing'', c_ip (s_objs s r)]) r"
    by (simp add: service_read_def)
  with inv show ?thesis
    by (simp add: server_inv_disconnect)
qed

lemma server_inv_timeout_loop:
  "server_inv s \<Longrightarrow> server_inv (snd (timeout_loop fsub s now i disconnected))"
proof (induction fsub s now i disconnected rule: timeout_loop.induct)
  case (1 fsub s now i disconnected)
  show ?case
  proof (cases "i < length (s_clients s)")
    case False
    with "1.prems" show ?thesis
      by (simp add: timeout_loop.simps [of fsub s])
  next
    case lt: True
    let ?r = "s_clients s ! i"
    show ?thesis
    proof (cases "c_watchDog (s_objs s ?r) < fsub now 5")
      case True
      from "1.prems" have "server_inv (server_disconnect s ?r)"
        by (rule server_inv_disconnect)
      from "1.IH"(1) [OF lt refl True this] lt True show ?thesis
        by (simp add: timeout_loop.simps [of fsub s] Let_def)
    next
      case False
      from "1.IH"(2) [OF lt refl False "1.prems"] lt False show ?thesis
        by (simp add: timeout_loop.simps [of fsub s] Let_def)
    qed
  qed
qed

lemma addressing_outb [simp]:
  "addressing (s\<lparr> s_objs := (s_objs s)(r := (s_objs s r)\<lparr> c_outb := b \<rparr>) \<rparr>) = addressing s"
  by (auto simp: addressing_def)

lemma server_inv_write_loop: "server_inv s \<Longrightarrow> server_inv (write_loop s out i)"
proof (induction s out i rule: write_loop.induct)
  case (1 s out i)
  show ?case
  proof (cases "i < length (s_clients s)")
    case False
    with "1.prems" show ?thesis
      by (simp add: write_loop.simps [of s])
  next
    case lt: True
    let ?r = "s_clients s ! i"
    show ?thesis
    proof (cases "c_outb (s_objs s ?r) = []")
      case True
      then have ne: "\<not> c_outb (s_objs s ?r) \<noteq> []"
        by simp
      from "1.IH"(3) [OF lt refl ne "1.prems"] lt True show ?thesis
        by (simp add: write_loop.simps [of s] Let_def)
    next
      case ne: False
      show ?thesis
      proof (cases "out i")
        case (Sent sent)
        let ?s1 = "s\<lparr> s_objs := (s_objs s)
            (?r := (s_objs s ?r)\<lparr> c_outb := drop sent (c_outb (s_objs s ?r)) \<rparr>) \<rparr>"
        have "addressing ?s1 = addressing s"
          by simp
        from server_inv_addressing [OF this] "1.prems" have "server_inv ?s1"
          by simp
        from "1.IH"(1) [OF lt refl ne Sent this] lt ne Sent show ?thesis
          by (simp add: write_loop.simps [of s] Let_def)
      next
        case Send_OSError
        let ?s1 = "server_disconnect (server_print s VERBOSITY_WARNING
            [''Write connection error. Closing'', c_ip (s_objs s ?r)]) ?r"
        from "1.prems" have "server_inv ?s1"
          by (simp add: server_inv_disconnect)
        from "1.IH"(2) [OF lt refl ne Send_OSError this] lt ne Send_OSError
        show ?thesis
          by (simp add: write_loop.simps [of s] Let_def)
      qed
    qed
  qed
qed

lemma server_inv_step:
  assumes "server_inv s" and "server_step rd depth fsub s ev = Inr s'"
  shows "server_inv s'"
proof (cases ev)
  case (Accept ip now)
  with assms show ?thesis
    by (auto simp: server_inv_accept)
next
  case (Readable r res now out)
  let ?res = "if c_sock_open (s_objs s r) then res else Recv_OSError"
  from assms(2) Readable obtain s1 where sr: "service_read rd depth s r ?res now = Inr s1"
    and s': "s' = write_loop s1 out 0"
    by (cases "service_read rd depth s r ?res now") (simp_all add: write_all_def)
  from assms(1) sr have "server_inv s1"
    by (rule server_inv_service_read)
  with s' show ?thesis
    by (simp add: server_inv_write_loop)
next
  case (Check_timeout now)
  with assms(2) have "s' = snd (timeout_loop fsub s now 0 [])"
    by (simp add: disconnect_if_timeout_def)
  with assms(1) show ?thesis
    by (simp add: server_inv_timeout_loop)
qed

lemma server_inv_run:
  "server_inv s \<Longrightarrow> run_server rd depth fsub s evs = Inr s' \<Longrightarrow> server_inv s'"
proof (induction evs arbitrary: s)
  case Nil
  then show ?case by simp
next
  case (Cons ev evs)
  from Cons.prems(2) obtain s1 where st: "server_step rd depth fsub s ev = Inr s1"
    and rest: "run_server rd depth fsub s1 evs = Inr s'"
    by (cases "server_step rd depth fsub s ev") simp_all
  from Cons.prems(1) st have "server_inv s1"
    by (rule server_inv_step)
  from Cons.IH [OF this rest] show ?case .
qed

subsection \<open>Authentication\<close>

lemma encode_frame_result:
  "(\<exists>bs. encode_frame a f = Inr bs) \<or> encode_frame a f = Inl OverflowError"
  by (simp add: encode_frame_def construct_frame_def to_bytes_def Let_def)

lemma clients_foldl_send:
  "s_clients (foldl (\<lambda>s' r. if P s' r then server_send_bytes s' r data else s') s rs) =
     s_clients s"
  using addressing_foldl_send [of P data s rs] by (simp add: addressing_def)

lemma send_peers_frame_result:
  "(\<exists>s'. send_peers_frame s g = Inr s') \<or> send_peers_frame s g = Inl OverflowError"
  using encode_frame_result [of SERVER_ADDR
      "\<lparr> f_dest = ALL_CLIENTS, f_type = FRAME_TYPE_PEERS,
         f_data = Some (get_peers_list s g), f_meta = None \<rparr>"]
  by (auto simp: send_peers_frame_def)

lemma process_authframe_passed:
  assumes la: "loads_auth rd (d_data d) = Inr (nm, g)" and g: "g \<in> set (s_groups s)"
    and an: "auth_name s r nm g = Inr (s1, Some nm')"
  shows "get_free_addr s g = None \<Longrightarrow>
      process_authframe rd s r d =
        Inr (server_disconnect
               (server_print (server_print s1 VERBOSITY_INFO [''Auth passed'', nm', g])
                  VERBOSITY_WARNING [''No free addresses. Closing'', c_ip (s_objs s1 r)]) r)"
    and "get_free_addr s g = Some b \<Longrightarrow>
      process_authframe rd s r d =
        send_peers_frame
          ((server_print s1 VERBOSITY_INFO [''Auth passed'', nm', g])
             \<lparr> s_objs := (s_objs s1)(r := (s_objs s1 r)\<lparr> c_name := nm', c_group := g, c_addr := b \<rparr>) \<rparr>)
          g"
proof -
  let ?s2 = "server_print s1 VERBOSITY_INFO [''Auth passed'', nm', g]"
  from an have "addressing s1 = addressing s"
    by (rule auth_name_Some)
  then have "addressing ?s2 = addressing s"
    by simp
  then have fa: "get_free_addr ?s2 g = get_free_addr s g"
    by (rule get_free_addr_addressing)
  show "get_free_addr s g = None \<Longrightarrow>
      process_authframe rd s r d =
        Inr (server_disconnect
               (server_print ?s2 VERBOSITY_WARNING
                  [''No free addresses. Closing'', c_ip (s_objs s1 r)]) r)"
    using la g an fa by (simp add: process_authframe_def Let_def)
  show "get_free_addr s g = Some b \<Longrightarrow>
      process_authframe rd s r d =
        send_peers_frame
          (?s2\<lparr> s_objs := (s_objs s1)(r := (s_objs s1 r)\<lparr> c_name := nm', c_group := g, c_addr := b \<rparr>) \<rparr>)
          g"
    using la g an fa by (simp add: process_authframe_def Let_def)
qed

subsection \<open>The example run\<close>

lemma find_upt:
  "find P [m..<n] = (if m < n then if P m then Some m else find P [Suc m..<n] else None)"
  by (simp add: upt_conv_Cons)

lemma auth_payload_bytes:
  "auth_payload ''a'' ''g'' =
     [123, 34, 110, 97, 109, 101, 34, 58, 32, 34, 97, 34, 44, 32, 34, 103, 114, 111, 117, 112,
      34, 58, 32, 34, 103, 34, 125]"
  "auth_payload ''b'' ''g'' =
     [123, 34, 110, 97, 109, 101, 34, 58, 32, 34, 98, 34, 44, 32, 34, 103, 114, 111, 117, 112,
      34, 58, 32, 34, 103, 34, 125]"
  "auth_payload ''c'' ''h'' =
     [123, 34, 110, 97, 109, 101, 34, 58, 32, 34, 99, 34, 44, 32, 34, 103, 114, 111, 117, 112,
      34, 58, 32, 34, 104, 34, 125]"
  "auth_payload ''d'' ''g'' =
     [123, 34, 110, 97, 109, 101, 34, 58, 32, 34, 100, 34, 44, 32, 34, 103, 114, 111, 117, 112,
      34, 58, 32, 34, 103, 34, 125]"
  by (simp_all add: auth_payload_def dumps_def utf8_def json_string_def escape_char_def)

lemma auth_frame_bytes:
  "auth_frame ''a'' ''g'' = [0, 0, 0, 38, 0x30, 0x32, 0x30, 0, 0xFF, 1, 0] @ auth_payload ''a'' ''g''"
  "auth_frame ''b'' ''g'' = [0, 0, 0, 38, 0x30, 0x32, 0x30, 0, 0xFF, 1, 0] @ auth_payload ''b'' ''g''"
  "auth_frame ''c'' ''h'' = [0, 0, 0, 38, 0x30, 0x32, 0x30, 0, 0xFF, 1, 0] @ auth_payload ''c'' ''h''"
  "auth_frame ''d'' ''g'' = [0, 0, 0, 38, 0x30, 0x32, 0x30, 0, 0xFF, 1, 0] @ auth_payload ''d'' ''g''"
  using auth_payload_bytes
  by (simp_all add: auth_frame_def encode_frame_def construct_frame_def auth_payload_def
      HEADER_SIZE_def to_bytes_def be_bytes_4 VERSION_def SERVER_ADDR_def UNKNOWN_ADDR_def
      FRAME_TYPE_AUTH_def)

lemma loads_auth_example:
  "loads_auth auth_reader (auth_payload ''a'' ''g'') = Inr (''a'', ''g'')"
  "loads_auth auth_reader (auth_payload ''b'' ''g'') = Inr (''b'', ''g'')"
  "loads_auth auth_reader (auth_payload ''c'' ''h'') = Inr (''c'', ''h'')"
  "loads_auth auth_reader (auth_payload ''d'' ''g'') = Inr (''d'', ''g'')"
  by (simp_all add: auth_reader_def auth_payload_bytes)

lemmas server_eval =
  service_read_def process_buf.simps server_process_frame_def process_authframe_def
  auth_name_def get_client_by_name_def get_free_addr_def get_client_by_addr_def
  send_peers_frame_def get_peers_list_def get_clients_by_group_def server_send_bytes_def
  server_print_def server_disconnect_def write_all_def write_loop.simps
  accept_connection_def new_server_def Let_def find_upt
  VERBOSITY_INFO_def VERBOSITY_WARNING_def IN_BUFFER_LIMIT_def

lemmas codec_eval =
  encode_frame_def construct_frame_def decode_frame_def get_frame_def slice_def
  dumps_def utf8_def json_string_def escape_char_def
  str_int_def str_nat.simps from_bytes_def to_bytes_def be_bytes_4 HEADER_SIZE_def
  VERSION_def SERVER_ADDR_def UNKNOWN_ADDR_def ALL_CLIENTS_def FRAME_TYPE_AUTH_def
  FRAME_TYPE_PEERS_def FRAME_TYPE_DATA_def

lemma example_run:
  "run_server auth_reader 10 (-) (new_server [''g'', ''h''] [''Ant'']) example_events =
     Inr example_server"
  by (simp add: example_events_def example_server_def auth_frame_bytes auth_payload_bytes
      auth_reader_def server_eval codec_eval fun_eq_iff)

subsection \<open>Addresses are assigned lowest first\<close>

lemma held_iff:
  "get_client_by_addr s a g \<noteq> None \<longleftrightarrow>
     (\<exists>x\<in>set (s_clients s). c_group (s_objs s x) = g \<and> c_addr (s_objs s x) = a)"
  by (auto simp: get_client_by_addr_None)

lemma free_iff:
  "get_client_by_addr s a g = None \<longleftrightarrow>
     (\<forall>x\<in>set (s_clients s). c_group (s_objs s x) = g \<longrightarrow> c_addr (s_objs s x) \<noteq> a)"
  by (auto simp: get_client_by_addr_None)

lemma authframe_assigns:
  assumes la: "loads_auth rd (d_data d) = Inr (nm, g)" and g: "g \<in> set (s_groups s)"
    and an: "auth_name s r nm g = Inr (s1, Some nm')"
    and free: "get_free_addr s g = Some b"
  shows "(\<exists>s'. process_authframe rd s r d = Inr s') \<or>
      process_authframe rd s r d = Inl OverflowError"
    and "process_authframe rd s r d = Inr s' \<Longrightarrow>
      s_clients s' = s_clients s \<and> c_group (s_objs s' r) = g \<and> c_addr (s_objs s' r) = b"
proof -
  let ?s3 = "(server_print s1 VERBOSITY_INFO [''Auth passed'', nm', g])
      \<lparr> s_objs := (s_objs s1)(r := (s_objs s1 r)\<lparr> c_name := nm', c_group := g, c_addr := b \<rparr>) \<rparr>"
  have eq: "process_authframe rd s r d = send_peers_frame ?s3 g"
    using la g an free by (rule process_authframe_passed(2))
  show "(\<exists>s'. process_authframe rd s r d = Inr s') \<or>
      process_authframe rd s r d = Inl OverflowError"
    unfolding eq by (rule send_peers_frame_result)
  from an have a1: "addressing s1 = addressing s"
    by (rule auth_name_Some)
  show "s_clients s' = s_clients s \<and> c_group (s_objs s' r) = g \<and> c_addr (s_objs s' r) = b"
    if "process_authframe rd s r d = Inr s'"
  proof -
    from that eq have "send_peers_frame ?s3 g = Inr s'"
      by simp
    then have a3: "addressing s' = addressing ?s3"
      by (rule addressing_send_peers_frame)
    have "s_clients ?s3 = s_clients s"
      using addressing_eqD(1) [OF a1] by simp
    with addressing_eqD(1) [OF a3] have "s_clients s' = s_clients s"
      by simp
    moreover from addressing_eqD(3) [OF a3, of r] have "c_group (s_objs s' r) = g"
      by simp
    moreover from addressing_eqD(4) [OF a3, of r] have "c_addr (s_objs s' r) = b"
      by simp
    ultimately show ?thesis
      by simp
  qed
qed

lemma authframe_no_free_addr:
  assumes la: "loads_auth rd (d_data d) = Inr (nm, g)" and g: "g \<in> set (s_groups s)"
    and an: "auth_name s r nm g = Inr (s1, Some nm')"
    and free: "get_free_addr s g = None"
  shows "\<exists>s'. process_authframe rd s r d = Inr s' \<and> s_clients s' = remove1 r (s_clients s) \<and>
    \<not> c_sock_open (s_objs s' r)"
proof -
  from an have a1: "addressing s1 = addressing s"
    by (rule auth_name_Some)
  have "process_authframe rd s r d =
        Inr (server_disconnect
               (server_print (server_print s1 VERBOSITY_INFO [''Auth passed'', nm', g])
                  VERBOSITY_WARNING [''No free addresses. Closing'', c_ip (s_objs s1 r)]) r)"
    using la g an free by (rule process_authframe_passed(1))
  moreover have "s_clients (server_disconnect
               (server_print (server_print s1 VERBOSITY_INFO [''Auth passed'', nm', g])
                  VERBOSITY_WARNING [''No free addresses. Closing'', c_ip (s_objs s1 r)]) r) =
      remove1 r (s_clients s)"
    using addressing_eqD(1) [OF a1] by (simp add: server_disconnect_def)
  moreover have "\<not> c_sock_open (s_objs (server_disconnect
               (server_print (server_print s1 VERBOSITY_INFO [''Auth passed'', nm', g])
                  VERBOSITY_WARNING [''No free addresses. Closing'', c_ip (s_objs s1 r)]) r) r)"
    by (simp add: server_disconnect_def)
  ultimately show ?thesis
    by simp
qed

text \<open>
  Claim C4. An authentication is successful when the group is allowed and the name
  arbitration has passed. Then \<open>_process_authframe\<close> takes the address from
  \<open>_get_free_addr\<close>: the lowest \<open>a\<close> of \<open>1..254\<close> that no client of the group holds, every
  lower one being held; the client then carries that group and address and stays in the
  client list (the call can only fail by overflow of the length field of the PEERS
  frame). When every address of \<open>1..254\<close> is held, the client is disconnected. And after
  any sequence of events, starting from a server without clients, the clients that belong
  to a group hold one-byte addresses in \<open>1..254\<close>, pairwise distinct within a group.
\<close>

theorem lowest_free_address_assigned:
  "(loads_auth rd (d_data d) = Inr (nm, g) \<and> g \<in> set (s_groups s) \<and>
    auth_name s r nm g = Inr (s1, Some nm') \<longrightarrow>
      (case get_free_addr s g of
         Some b \<Rightarrow>
           (\<exists>a. 1 \<le> a \<and> a \<le> 254 \<and> b = be_bytes 1 a \<and>
              (\<forall>x\<in>set (s_clients s). c_group (s_objs s x) = g \<longrightarrow> c_addr (s_objs s x) \<noteq> b) \<and>
              (\<forall>a'. 1 \<le> a' \<and> a' < a \<longrightarrow>
                 (\<exists>x\<in>set (s_clients s).
                    c_group (s_objs s x) = g \<and> c_addr (s_objs s x) = be_bytes 1 a'))) \<and>
           ((\<exists>s'. process_authframe rd s r d = Inr s') \<or>
            process_authframe rd s r d = Inl OverflowError) \<and>
           (\<forall>s'. process_authframe rd s r d = Inr s' \<longrightarrow>
              s_clients s' = s_clients s \<and> c_group (s_objs s' r) = g \<and>
              c_addr (s_objs s' r) = b)
       | None \<Rightarrow>
           (\<forall>a. 1 \<le> a \<and> a \<le> 254 \<longrightarrow>
              (\<exists>x\<in>set (s_clients s).
                 c_group (s_objs s x) = g \<and> c_addr (s_objs s x) = be_bytes 1 a)) \<and>
           (\<exists>s'. process_authframe rd s r d = Inr s' \<and>
              s_clients s' = remove1 r (s_clients s) \<and> \<not> c_sock_open (s_objs s' r)))) \<and>
   (run_server rd' depth fsub (new_server grps names) evs = Inr t \<longrightarrow>
      distinct (s_clients t) \<and>
      (\<forall>x\<in>set (s_clients t). c_group (s_objs t x) \<noteq> '''' \<longrightarrow>
         (\<exists>a. 1 \<le> a \<and> a \<le> 254 \<and> c_addr (s_objs t x) = be_bytes 1 a)) \<and>
      (\<forall>x\<in>set (s_clients t). \<forall>y\<in>set (s_clients t).
         x \<noteq> y \<and> c_group (s_objs t x) = c_group (s_objs t y) \<and> c_group (s_objs t x) \<noteq> ''''
           \<longrightarrow> c_addr (s_objs t x) \<noteq> c_addr (s_objs t y)))"
proof (intro conjI impI)
  assume "loads_auth rd (d_data d) = Inr (nm, g) \<and> g \<in> set (s_groups s) \<and>
    auth_name s r nm g = Inr (s1, Some nm')"
  then have la: "loads_auth rd (d_data d) = Inr (nm, g)" and g: "g \<in> set (s_groups s)"
    and an: "auth_name s r nm g = Inr (s1, Some nm')"
    by simp_all
  show "case get_free_addr s g of
         Some b \<Rightarrow>
           (\<exists>a. 1 \<le> a \<and> a \<le> 254 \<and> b = be_bytes 1 a \<and>
              (\<forall>x\<in>set (s_clients s). c_group (s_objs s x) = g \<longrightarrow> c_addr (s_objs s x) \<noteq> b) \<and>
              (\<forall>a'. 1 \<le> a' \<and> a' < a \<longrightarrow>
                 (\<exists>x\<in>set (s_clients s).
                    c_group (s_objs s x) = g \<and> c_addr (s_objs s x) = be_bytes 1 a'))) \<and>
           ((\<exists>s'. process_authframe rd s r d = Inr s') \<or>
            process_authframe rd s r d = Inl OverflowError) \<and>
           (\<forall>s'. process_authframe rd s r d = Inr s' \<longrightarrow>
              s_clients s' = s_clients s \<and> c_group (s_objs s' r) = g \<and>
              c_addr (s_objs s' r) = b)
       | None \<Rightarrow>
           (\<forall>a. 1 \<le> a \<and> a \<le> 254 \<longrightarrow>
              (\<exists>x\<in>set (s_clients s).
                 c_group (s_objs s x) = g \<and> c_addr (s_objs s x) = be_bytes 1 a)) \<and>
           (\<exists>s'. process_authframe rd s r d = Inr s' \<and>
              s_clients s' = remove1 r (s_clients s) \<and> \<not> c_sock_open (s_objs s' r))"
  proof (cases "get_free_addr s g")
    case None
    have "\<exists>x\<in>set (s_clients s). c_group (s_objs s x) = g \<and> c_addr (s_objs s x) = be_bytes 1 a"
      if "1 \<le> a \<and> a \<le> 254" for a
      using get_free_addr_None [OF None, of a] that by (simp only: held_iff)
    with authframe_no_free_addr [OF la g an None] None show ?thesis
      by simp
  next
    case (Some b)
    from get_free_addr_Some [OF Some] have
      "\<exists>a. 1 \<le> a \<and> a \<le> 254 \<and> b = be_bytes 1 a \<and>
          (\<forall>x\<in>set (s_clients s). c_group (s_objs s x) = g \<longrightarrow> c_addr (s_objs s x) \<noteq> b) \<and>
          (\<forall>a'. 1 \<le> a' \<and> a' < a \<longrightarrow>
             (\<exists>x\<in>set (s_clients s).
                c_group (s_objs s x) = g \<and> c_addr (s_objs s x) = be_bytes 1 a'))"
      by (simp only: free_iff) blast
    with authframe_assigns [OF la g an Some] Some show ?thesis
      by simp
  qed
next
  assume run: "run_server rd' depth fsub (new_server grps names) evs = Inr t"
  have "server_inv t"
    using server_inv_new run by (rule server_inv_run)
  then show "distinct (s_clients t)"
    and "\<forall>x\<in>set (s_clients t). c_group (s_objs t x) \<noteq> '''' \<longrightarrow>
         (\<exists>a. 1 \<le> a \<and> a \<le> 254 \<and> c_addr (s_objs t x) = be_bytes 1 a)"
    and "\<forall>x\<in>set (s_clients t). \<forall>y\<in>set (s_clients t).
         x \<noteq> y \<and> c_group (s_objs t x) = c_group (s_objs t y) \<and> c_group (s_objs t x) \<noteq> ''''
           \<longrightarrow> c_addr (s_objs t x) \<noteq> c_addr (s_objs t y)"
    unfolding server_inv_def by blast+
qed

lemma example_auth_d:
  "auth_name example_server 3 ''d'' ''g'' = Inr (example_server, Some ''d'')"
  "get_free_addr example_server ''g'' = Some [3]"
  "\<exists>s'. process_authframe auth_reader example_server 3
      \<lparr> d_version = VERSION, d_dest = SERVER_ADDR, d_sender = UNKNOWN_ADDR,
        d_type = FRAME_TYPE_AUTH, d_meta = [0], d_data = auth_payload ''d'' ''g'' \<rparr> = Inr s'"
  by (simp_all add: example_server_def auth_payload_bytes auth_reader_def server_eval codec_eval)

theorem lowest_free_address_assigned_witness:
  "loads_auth auth_reader (auth_payload ''d'' ''g'') = Inr (''d'', ''g'') \<and>
   ''g'' \<in> set (s_groups example_server) \<and>
   auth_name example_server 3 ''d'' ''g'' = Inr (example_server, Some ''d'') \<and>
   get_free_addr example_server ''g'' = Some [3] \<and>
   (\<exists>s'. process_authframe auth_reader example_server 3
       \<lparr> d_version = VERSION, d_dest = SERVER_ADDR, d_sender = UNKNOWN_ADDR,
         d_type = FRAME_TYPE_AUTH, d_meta = [0], d_data = auth_payload ''d'' ''g'' \<rparr> = Inr s' \<and>
      s_clients s' = [0, 1, 2, 3] \<and> c_group (s_objs s' 3) = ''g'' \<and>
      c_addr (s_objs s' 3) = [3]) \<and>
   run_server auth_reader 10 (-) (new_server [''g'', ''h''] [''Ant'']) example_events =
     Inr example_server \<and>
   distinct (s_clients example_server) \<and>
   (\<exists>a. 1 \<le> a \<and> a \<le> 254 \<and> c_addr (s_objs example_server 1) = be_bytes 1 a) \<and>
   c_addr (s_objs example_server 0) \<noteq> c_addr (s_objs example_server 1)"
proof -
  let ?d = "\<lparr> d_version = VERSION, d_dest = SERVER_ADDR, d_sender = UNKNOWN_ADDR,
         d_type = FRAME_TYPE_AUTH, d_meta = [0], d_data = auth_payload ''d'' ''g'' \<rparr>"
  have g: "''g'' \<in> set (s_groups example_server)"
    and cl: "s_clients example_server = [0, 1, 2, 3]"
    and grp: "c_group (s_objs example_server 0) = ''g''" "c_group (s_objs example_server 1) = ''g''"
    by (simp_all add: example_server_def)
  have la: "loads_auth auth_reader (d_data ?d) = Inr (''d'', ''g'')"
    by (simp add: loads_auth_example)
  have in01: "0 \<in> set (s_clients example_server)" "1 \<in> set (s_clients example_server)"
    by (simp_all add: cl)
  from example_auth_d(3) obtain s' where s': "process_authframe auth_reader example_server 3 ?d = Inr s'"
    by blast
  have all: "(case get_free_addr example_server ''g'' of
         Some b \<Rightarrow>
           (\<exists>a. 1 \<le> a \<and> a \<le> 254 \<and> b = be_bytes 1 a \<and>
              (\<forall>x\<in>set (s_clients example_server).
                 c_group (s_objs example_server x) = ''g'' \<longrightarrow> c_addr (s_objs example_server x) \<noteq> b) \<and>
              (\<forall>a'. 1 \<le> a' \<and> a' < a \<longrightarrow>
                 (\<exists>x\<in>set (s_clients example_server).
                    c_group (s_objs example_server x) = ''g'' \<and>
                    c_addr (s_objs example_server x) = be_bytes 1 a'))) \<and>
           ((\<exists>s'. process_authframe auth_reader example_server 3 ?d = Inr s') \<or>
            process_authframe auth_reader example_server 3 ?d = Inl OverflowError) \<and>
           (\<forall>s'. process_authframe auth_reader example_server 3 ?d = Inr s' \<longrightarrow>
              s_clients s' = s_clients example_server \<and> c_group (s_objs s' 3) = ''g'' \<and>
              c_addr (s_objs s' 3) = b)
       | None \<Rightarrow>
           (\<forall>a. 1 \<le> a \<and> a \<le> 254 \<longrightarrow>
              (\<exists>x\<in>set (s_clients example_server).
                 c_group (s_objs example_server x) = ''g'' \<and>
                 c_addr (s_objs example_server x) = be_bytes 1 a)) \<and>
           (\<exists>s'. process_authframe auth_reader example_server 3 ?d = Inr s' \<and>
              s_clients s' = remove1 3 (s_clients example_server) \<and>
              \<not> c_sock_open (s_objs s' 3))) \<and>
      distinct (s_clients example_server) \<and>
      (\<forall>x\<in>set (s_clients example_server). c_group (s_objs example_server x) \<noteq> '''' \<longrightarrow>
         (\<exists>a. 1 \<le> a \<and> a \<le> 254 \<and> c_addr (s_objs example_server x) = be_bytes 1 a)) \<and>
      (\<forall>x\<in>set (s_clients example_server). \<forall>y\<in>set (s_clients example_server).
         x \<noteq> y \<and> c_group (s_objs example_server x) = c_group (s_objs example_server y) \<and>
         c_group (s_objs example_server x) \<noteq> ''''
           \<longrightarrow> c_addr (s_objs example_server x) \<noteq> c_addr (s_objs example_server y))"
    using lowest_free_address_assigned
      [where rd = auth_reader and d = ?d and nm = "''d''" and g = "''g''"
         and s = example_server and r = 3 and ?s1.0 = example_server and nm' = "''d''"
         and rd' = auth_reader and depth = 10 and fsub = "(-)" and grps = "[''g'', ''h'']"
         and names = "[''Ant'']" and evs = example_events and t = example_server]
      la g example_auth_d(1) example_run
    by blast
  from all s' have a3: "s_clients s' = [0, 1, 2, 3] \<and> c_group (s_objs s' 3) = ''g'' \<and>
      c_addr (s_objs s' 3) = [3]"
    by (simp add: example_auth_d(2) cl)
  from all have d: "distinct (s_clients example_server)"
    by simp
  from all in01(2) grp(2) have r1: "\<exists>a. 1 \<le> a \<and> a \<le> 254 \<and> c_addr (s_objs example_server 1) = be_bytes 1 a"
    by auto
  from all in01 grp have ne: "c_addr (s_objs example_server 0) \<noteq> c_addr (s_objs example_server 1)"
    by auto
  from s' a3 d r1 ne show ?thesis
    using loads_auth_example(4) g example_auth_d(1) example_auth_d(2) example_run by blast
qed

subsection \<open>The relay\<close>

lemma broadcast_foldl:
  assumes "distinct rs"
  shows "foldl (\<lambda>s' c. if c_addr (s_objs s' c) \<noteq> a then server_send_bytes s' c frame else s') s rs =
     s\<lparr> s_objs := (\<lambda>x. if x \<in> set rs \<and> c_addr (s_objs s x) \<noteq> a
                          then (s_objs s x)\<lparr> c_outb := c_outb (s_objs s x) @ frame \<rparr>
                          else s_objs s x) \<rparr>"
  using assms
proof (induction rs arbitrary: s)
  case Nil
  show ?case by simp
next
  case (Cons c rs)
  let ?s1 = "if c_addr (s_objs s c) \<noteq> a then server_send_bytes s c frame else s"
  let ?F = "\<lambda>x. if x \<in> set rs \<and> c_addr (s_objs ?s1 x) \<noteq> a
                then (s_objs ?s1 x)\<lparr> c_outb := c_outb (s_objs ?s1 x) @ frame \<rparr>
                else s_objs ?s1 x"
  let ?G = "\<lambda>x. if x \<in> set (c # rs) \<and> c_addr (s_objs s x) \<noteq> a
                then (s_objs s x)\<lparr> c_outb := c_outb (s_objs s x) @ frame \<rparr>
                else s_objs s x"
  from Cons.prems have c: "c \<notin> set rs" and d: "distinct rs"
    by simp_all
  have "foldl (\<lambda>s' c. if c_addr (s_objs s' c) \<noteq> a then server_send_bytes s' c frame else s') s (c # rs) =
      foldl (\<lambda>s' c. if c_addr (s_objs s' c) \<noteq> a then server_send_bytes s' c frame else s') ?s1 rs"
    by simp
  also have "\<dots> = ?s1\<lparr> s_objs := ?F \<rparr>"
    by (rule Cons.IH [OF d])
  also have "\<dots> = s\<lparr> s_objs := ?F \<rparr>"
    by (simp add: server_send_bytes_def)
  also have "?F = ?G"
    using c by (auto simp: server_send_bytes_def fun_eq_iff)
  finally show ?case .
qed

lemma server_inv_unique:
  assumes "server_inv s" and "x \<in> set (s_clients s)" and "y \<in> set (s_clients s)"
    and "c_group (s_objs s x) = c_group (s_objs s y)" and "c_group (s_objs s x) \<noteq> ''''"
    and "c_addr (s_objs s x) = c_addr (s_objs s y)"
  shows "x = y"
  using assms unfolding server_inv_def by blast

lemma server_inv_distinct: "server_inv s \<Longrightarrow> distinct (s_clients s)"
  unfolding server_inv_def by blast

lemma server_inv_not_broadcast_addr:
  assumes "server_inv s" and "x \<in> set (s_clients s)" and "c_group (s_objs s x) \<noteq> ''''"
  shows "c_addr (s_objs s x) \<noteq> ALL_CLIENTS"
proof -
  from assms obtain a where "1 \<le> a" "a \<le> 254" "c_addr (s_objs s x) = be_bytes 1 a"
    unfolding server_inv_def by blast
  moreover have "(of_nat a :: 8 word) \<noteq> 255" if "1 \<le> a" "a \<le> 254"
  proof
    assume "(of_nat a :: 8 word) = 255"
    then have "unat (of_nat a :: 8 word) = unat (255 :: 8 word)"
      by simp
    with that show False
      by (simp add: unat_of_nat)
  qed
  ultimately show ?thesis
    by (simp add: ALL_CLIENTS_def)
qed

lemma server_process_dataframe_broadcast:
  assumes inv: "server_inv s" and r: "r \<in> set (s_clients s)"
    and auth: "c_group (s_objs s r) \<noteq> ''''" and sdr: "c_addr (s_objs s r) = d_sender d"
    and dest: "d_dest d = ALL_CLIENTS"
  shows "server_process_dataframe s r d frame =
     s\<lparr> s_objs := (\<lambda>x.
           if x \<in> set (s_clients s) \<and> c_group (s_objs s x) = c_group (s_objs s r) \<and> x \<noteq> r
           then (s_objs s x)\<lparr> c_outb := c_outb (s_objs s x) @ frame \<rparr>
           else s_objs s x) \<rparr>"
proof -
  let ?rs = "get_clients_by_group s (c_group (s_objs s r))"
  have d: "distinct ?rs"
    using server_inv_distinct [OF inv] by (simp add: get_clients_by_group_def)
  have "server_process_dataframe s r d frame =
      s\<lparr> s_objs := (\<lambda>x. if x \<in> set ?rs \<and> c_addr (s_objs s x) \<noteq> d_sender d
                          then (s_objs s x)\<lparr> c_outb := c_outb (s_objs s x) @ frame \<rparr>
                          else s_objs s x) \<rparr>"
    using dest by (simp add: server_process_dataframe_def broadcast_foldl [OF d])
  also have "(\<lambda>x. if x \<in> set ?rs \<and> c_addr (s_objs s x) \<noteq> d_sender d
                          then (s_objs s x)\<lparr> c_outb := c_outb (s_objs s x) @ frame \<rparr>
                          else s_objs s x) =
      (\<lambda>x. if x \<in> set (s_clients s) \<and> c_group (s_objs s x) = c_group (s_objs s r) \<and> x \<noteq> r
           then (s_objs s x)\<lparr> c_outb := c_outb (s_objs s x) @ frame \<rparr>
           else s_objs s x)"
  proof
    fix x
    have "(x \<in> set ?rs \<and> c_addr (s_objs s x) \<noteq> d_sender d) \<longleftrightarrow>
        (x \<in> set (s_clients s) \<and> c_group (s_objs s x) = c_group (s_objs s r) \<and> x \<noteq> r)"
      using server_inv_unique [OF inv _ r, of x] auth sdr
      by (auto simp: get_clients_by_group_def)
    then show "(if x \<in> set ?rs \<and> c_addr (s_objs s x) \<noteq> d_sender d
                          then (s_objs s x)\<lparr> c_outb := c_outb (s_objs s x) @ frame \<rparr>
                          else s_objs s x) =
      (if x \<in> set (s_clients s) \<and> c_group (s_objs s x) = c_group (s_objs s r) \<and> x \<noteq> r
           then (s_objs s x)\<lparr> c_outb := c_outb (s_objs s x) @ frame \<rparr>
           else s_objs s x)"
      by simp
  qed
  finally show ?thesis .
qed

lemma server_process_dataframe_unicast:
  assumes inv: "server_inv s" and auth: "c_group (s_objs s r) \<noteq> ''''"
    and dest: "d_dest d \<noteq> ALL_CLIENTS"
  shows "server_process_dataframe s r d frame =
     s\<lparr> s_objs := (\<lambda>x.
           if x \<in> set (s_clients s) \<and> c_group (s_objs s x) = c_group (s_objs s r) \<and>
              c_addr (s_objs s x) = d_dest d
           then (s_objs s x)\<lparr> c_outb := c_outb (s_objs s x) @ frame \<rparr>
           else s_objs s x) \<rparr>"
proof (cases "get_client_by_addr s (d_dest d) (c_group (s_objs s r))")
  case None
  then have "\<forall>x\<in>set (s_clients s).
      \<not> (c_addr (s_objs s x) = d_dest d \<and> c_group (s_objs s x) = c_group (s_objs s r))"
    by (simp add: get_client_by_addr_None)
  then have "(\<lambda>x.
           if x \<in> set (s_clients s) \<and> c_group (s_objs s x) = c_group (s_objs s r) \<and>
              c_addr (s_objs s x) = d_dest d
           then (s_objs s x)\<lparr> c_outb := c_outb (s_objs s x) @ frame \<rparr>
           else s_objs s x) = s_objs s"
    by (auto simp: fun_eq_iff)
  with None dest show ?thesis
    by (simp add: server_process_dataframe_def)
next
  case (Some x0)
  from get_client_by_addr_Some [OF Some] have x0: "x0 \<in> set (s_clients s)"
    "c_addr (s_objs s x0) = d_dest d" "c_group (s_objs s x0) = c_group (s_objs s r)"
    by simp_all
  have "(\<lambda>x.
           if x \<in> set (s_clients s) \<and> c_group (s_objs s x) = c_group (s_objs s r) \<and>
              c_addr (s_objs s x) = d_dest d
           then (s_objs s x)\<lparr> c_outb := c_outb (s_objs s x) @ frame \<rparr>
           else s_objs s x) =
      (s_objs s)(x0 := (s_objs s x0)\<lparr> c_outb := c_outb (s_objs s x0) @ frame \<rparr>)"
  proof
    fix x
    have "(x \<in> set (s_clients s) \<and> c_group (s_objs s x) = c_group (s_objs s r) \<and>
              c_addr (s_objs s x) = d_dest d) \<longleftrightarrow> x = x0"
      using server_inv_unique [OF inv _ x0(1), of x] x0 auth by auto
    then show "(if x \<in> set (s_clients s) \<and> c_group (s_objs s x) = c_group (s_objs s r) \<and>
              c_addr (s_objs s x) = d_dest d
           then (s_objs s x)\<lparr> c_outb := c_outb (s_objs s x) @ frame \<rparr>
           else s_objs s x) =
        ((s_objs s)(x0 := (s_objs s x0)\<lparr> c_outb := c_outb (s_objs s x0) @ frame \<rparr>)) x"
      by simp
  qed
  with Some dest show ?thesis
    by (simp add: server_process_dataframe_def server_send_bytes_def)
qed

text \<open>
  Claim C3. The server accepts a DATA frame from a client \<open>r\<close> of its list when the frame
  decodes, \<open>r\<close> is authenticated (its group is not empty) and the sender byte is \<open>r\<close>'s
  address; the state is one in which addresses are distinct within a group
  (\<open>server_inv\<close>, which every state of a run satisfies by lemma \<open>server_inv_run\<close>). Then
  \<open>_process_frame\<close> returns without an exception, sets \<open>r\<close>'s watchdog and changes nothing
  else but output buffers: with \<open>dest = 255\<close> the frame bytes are appended, unchanged, to
  the output buffer of every listed client of \<open>r\<close>'s group other than \<open>r\<close>, and to no other
  buffer; with any other \<open>dest\<close> they are appended to the buffer of the listed client of
  \<open>r\<close>'s group that holds the address \<open>dest\<close>, and to no other. If no client of the group
  holds \<open>dest\<close>, the relay \<open>_process_dataframe\<close> leaves the server as it is.
\<close>

theorem data_frame_relayed:
  assumes dec: "decode_frame frame = Inr d" and dtype: "d_type d = FRAME_TYPE_DATA"
    and auth: "c_group (s_objs s r) \<noteq> ''''" and sdr: "c_addr (s_objs s r) = d_sender d"
    and inv: "server_inv s" and r: "r \<in> set (s_clients s)"
  shows "server_process_frame rd s r frame now =
      Inr (s\<lparr> s_objs := (\<lambda>x.
             (s_objs s x)
               \<lparr> c_outb :=
                   (if x \<in> set (s_clients s) \<and> c_group (s_objs s x) = c_group (s_objs s r) \<and>
                       (if d_dest d = ALL_CLIENTS then x \<noteq> r
                        else c_addr (s_objs s x) = d_dest d)
                    then c_outb (s_objs s x) @ frame else c_outb (s_objs s x)),
                 c_watchDog := (if x = r then now else c_watchDog (s_objs s x)) \<rparr>) \<rparr>) \<and>
    (d_dest d \<noteq> ALL_CLIENTS \<and>
     (\<forall>x\<in>set (s_clients s).
        c_group (s_objs s x) = c_group (s_objs s r) \<longrightarrow> c_addr (s_objs s x) \<noteq> d_dest d) \<longrightarrow>
       server_process_dataframe s r d frame = s \<and>
       server_process_frame rd s r frame now =
         Inr (s\<lparr> s_objs := (s_objs s)(r := (s_objs s r)\<lparr> c_watchDog := now \<rparr>) \<rparr>))"
proof -
  let ?s1 = "s\<lparr> s_objs := (s_objs s)(r := (s_objs s r)\<lparr> c_watchDog := now \<rparr>) \<rparr>"
  have a1: "addressing ?s1 = addressing s"
    by simp
  from server_inv_addressing [OF a1] inv have inv1: "server_inv ?s1"
    by simp
  have r1: "r \<in> set (s_clients ?s1)" and auth1: "c_group (s_objs ?s1 r) \<noteq> ''''"
    and sdr1: "c_addr (s_objs ?s1 r) = d_sender d"
    using r auth sdr by simp_all
  have notauth: "d_type d \<noteq> FRAME_TYPE_AUTH"
    using dtype by (simp add: FRAME_TYPE_DATA_def FRAME_TYPE_AUTH_def)
  have pf: "server_process_frame rd s r frame now = Inr (server_process_dataframe ?s1 r d frame)"
    using server_process_frame_unfold [OF dec, of rd s r now] dtype notauth auth sdr
    by simp
  have main: "server_process_dataframe ?s1 r d frame =
      s\<lparr> s_objs := (\<lambda>x.
             (s_objs s x)
               \<lparr> c_outb :=
                   (if x \<in> set (s_clients s) \<and> c_group (s_objs s x) = c_group (s_objs s r) \<and>
                       (if d_dest d = ALL_CLIENTS then x \<noteq> r
                        else c_addr (s_objs s x) = d_dest d)
                    then c_outb (s_objs s x) @ frame else c_outb (s_objs s x)),
                 c_watchDog := (if x = r then now else c_watchDog (s_objs s x)) \<rparr>) \<rparr>"
  proof (cases "d_dest d = ALL_CLIENTS")
    case True
    have "(\<lambda>x.
           if x \<in> set (s_clients ?s1) \<and> c_group (s_objs ?s1 x) = c_group (s_objs ?s1 r) \<and> x \<noteq> r
           then (s_objs ?s1 x)\<lparr> c_outb := c_outb (s_objs ?s1 x) @ frame \<rparr>
           else s_objs ?s1 x) =
        (\<lambda>x.
             (s_objs s x)
               \<lparr> c_outb :=
                   (if x \<in> set (s_clients s) \<and> c_group (s_objs s x) = c_group (s_objs s r) \<and>
                       (if d_dest d = ALL_CLIENTS then x \<noteq> r
                        else c_addr (s_objs s x) = d_dest d)
                    then c_outb (s_objs s x) @ frame else c_outb (s_objs s x)),
                 c_watchDog := (if x = r then now else c_watchDog (s_objs s x)) \<rparr>)"
    proof
      fix x
      show "(if x \<in> set (s_clients ?s1) \<and> c_group (s_objs ?s1 x) = c_group (s_objs ?s1 r) \<and> x \<noteq> r
           then (s_objs ?s1 x)\<lparr> c_outb := c_outb (s_objs ?s1 x) @ frame \<rparr>
           else s_objs ?s1 x) =
             (s_objs s x)
               \<lparr> c_outb :=
                   (if x \<in> set (s_clients s) \<and> c_group (s_objs s x) = c_group (s_objs s r) \<and>
                       (if d_dest d = ALL_CLIENTS then x \<noteq> r
                        else c_addr (s_objs s x) = d_dest d)
                    then c_outb (s_objs s x) @ frame else c_outb (s_objs s x)),
                 c_watchDog := (if x = r then now else c_watchDog (s_objs s x)) \<rparr>"
        using True by (cases "x = r") simp_all
    qed
    then show ?thesis
      unfolding server_process_dataframe_broadcast [OF inv1 r1 auth1 sdr1 True]
      by simp
  next
    case False
    have "(\<lambda>x.
           if x \<in> set (s_clients ?s1) \<and> c_group (s_objs ?s1 x) = c_group (s_objs ?s1 r) \<and>
              c_addr (s_objs ?s1 x) = d_dest d
           then (s_objs ?s1 x)\<lparr> c_outb := c_outb (s_objs ?s1 x) @ frame \<rparr>
           else s_objs ?s1 x) =
        (\<lambda>x.
             (s_objs s x)
               \<lparr> c_outb :=
                   (if x \<in> set (s_clients s) \<and> c_group (s_objs s x) = c_group (s_objs s r) \<and>
                       (if d_dest d = ALL_CLIENTS then x \<noteq> r
                        else c_addr (s_objs s x) = d_dest d)
                    then c_outb (s_objs s x) @ frame else c_outb (s_objs s x)),
                 c_watchDog := (if x = r then now else c_watchDog (s_objs s x)) \<rparr>)"
    proof
      fix x
      show "(if x \<in> set (s_clients ?s1) \<and> c_group (s_objs ?s1 x) = c_group (s_objs ?s1 r) \<and>
              c_addr (s_objs ?s1 x) = d_dest d
           then (s_objs ?s1 x)\<lparr> c_outb := c_outb (s_objs ?s1 x) @ frame \<rparr>
           else s_objs ?s1 x) =
             (s_objs s x)
               \<lparr> c_outb :=
                   (if x \<in> set (s_clients s) \<and> c_group (s_objs s x) = c_group (s_objs s r) \<and>
                       (if d_dest d = ALL_CLIENTS then x \<noteq> r
                        else c_addr (s_objs s x) = d_dest d)
                    then c_outb (s_objs s x) @ frame else c_outb (s_objs s x)),
                 c_watchDog := (if x = r then now else c_watchDog (s_objs s x)) \<rparr>"
        using False by (cases "x = r") simp_all
    qed
    then show ?thesis
      unfolding server_process_dataframe_unicast [OF inv1 auth1 False]
      by simp
  qed
  have drop: "server_process_dataframe s0 r d frame = s0"
    if "d_dest d \<noteq> ALL_CLIENTS" and "get_client_by_addr s0 (d_dest d) (c_group (s_objs s0 r)) = None"
    for s0
    using that by (simp add: server_process_dataframe_def)
  show ?thesis
  proof (intro conjI impI)
    show "server_process_frame rd s r frame now =
      Inr (s\<lparr> s_objs := (\<lambda>x.
             (s_objs s x)
               \<lparr> c_outb :=
                   (if x \<in> set (s_clients s) \<and> c_group (s_objs s x) = c_group (s_objs s r) \<and>
                       (if d_dest d = ALL_CLIENTS then x \<noteq> r
                        else c_addr (s_objs s x) = d_dest d)
                    then c_outb (s_objs s x) @ frame else c_outb (s_objs s x)),
                 c_watchDog := (if x = r then now else c_watchDog (s_objs s x)) \<rparr>) \<rparr>)"
      unfolding pf main ..
  next
    assume no: "d_dest d \<noteq> ALL_CLIENTS \<and>
     (\<forall>x\<in>set (s_clients s).
        c_group (s_objs s x) = c_group (s_objs s r) \<longrightarrow> c_addr (s_objs s x) \<noteq> d_dest d)"
    then have none: "get_client_by_addr s (d_dest d) (c_group (s_objs s r)) = None"
      by (auto simp: get_client_by_addr_None)
    with no show "server_process_dataframe s r d frame = s"
      by (simp add: drop)
    from none have "get_client_by_addr ?s1 (d_dest d) (c_group (s_objs ?s1 r)) = None"
      using get_client_by_addr_addressing [OF a1] by simp
    with no have "server_process_dataframe ?s1 r d frame = ?s1"
      by (simp add: drop)
    with pf show "server_process_frame rd s r frame now = Inr ?s1"
      by simp
  qed
qed

lemma data_payload_length:
  "length (dumps (JList [envelope_json \<lparr> e_title = ''x'', e_content = JInt 1, e_queue = False \<rparr>]))
     = 46"
  by (simp add: envelope_json_def dumps_def utf8_def json_string_def escape_char_def str_int_def
      str_nat.simps)

lemma data_frame_bytes:
  "data_frame dest = [0, 0, 0, 57] @ VERSION @ dest @ [1] @ FRAME_TYPE_DATA @ [0] @
     dumps (JList [envelope_json \<lparr> e_title = ''x'', e_content = JInt 1, e_queue = False \<rparr>])"
  by (simp add: data_frame_def encode_frame_def construct_frame_def data_payload_length
      HEADER_SIZE_def to_bytes_def be_bytes_4)

lemma decode_data_frame:
  assumes "length dest = 1"
  shows "decode_frame (data_frame dest) =
    Inr \<lparr> d_version = VERSION, d_dest = dest, d_sender = [1], d_type = FRAME_TYPE_DATA,
          d_meta = [0],
          d_data = dumps (JList [envelope_json
                     \<lparr> e_title = ''x'', e_content = JInt 1, e_queue = False \<rparr>]) \<rparr>"
  unfolding data_frame_bytes
  by (rule decode_after_header) (simp_all add: assms FRAME_TYPE_DATA_def)

lemma server_inv_example: "server_inv example_server"
  using server_inv_new example_run by (rule server_inv_run)

theorem data_frame_relayed_witness:
  "server_inv example_server \<and>
   decode_frame (data_frame ALL_CLIENTS) =
     Inr \<lparr> d_version = VERSION, d_dest = ALL_CLIENTS, d_sender = [1], d_type = FRAME_TYPE_DATA,
           d_meta = [0],
           d_data = dumps (JList [envelope_json
                      \<lparr> e_title = ''x'', e_content = JInt 1, e_queue = False \<rparr>]) \<rparr> \<and>
   (\<exists>s'. server_process_frame auth_reader example_server 0 (data_frame ALL_CLIENTS) 7 = Inr s' \<and>
      map (\<lambda>x. c_outb (s_objs s' x)) [0, 1, 2, 3] = [[], data_frame ALL_CLIENTS, [], []] \<and>
      s_clients s' = [0, 1, 2, 3] \<and> c_watchDog (s_objs s' 0) = 7) \<and>
   (\<exists>s'. server_process_frame auth_reader example_server 0 (data_frame [2]) 7 = Inr s' \<and>
      map (\<lambda>x. c_outb (s_objs s' x)) [0, 1, 2, 3] = [[], data_frame [2], [], []]) \<and>
   (\<exists>s'. server_process_frame auth_reader example_server 0 (data_frame [9]) 7 = Inr s' \<and>
      map (\<lambda>x. c_outb (s_objs s' x)) [0, 1, 2, 3] = [[], [], [], []])"
proof -
  let ?d = "\<lambda>dest. \<lparr> d_version = VERSION, d_dest = dest, d_sender = [1], d_type = FRAME_TYPE_DATA,
           d_meta = [0],
           d_data = dumps (JList [envelope_json
                      \<lparr> e_title = ''x'', e_content = JInt 1, e_queue = False \<rparr>]) \<rparr>"
  have dec: "decode_frame (data_frame ALL_CLIENTS) = Inr (?d ALL_CLIENTS)"
    "decode_frame (data_frame [2]) = Inr (?d [2])"
    "decode_frame (data_frame [9]) = Inr (?d [9])"
    by (simp_all add: decode_data_frame ALL_CLIENTS_def)
  have ty: "d_type (?d dest) = FRAME_TYPE_DATA" for dest
    by simp
  have auth: "c_group (s_objs example_server 0) \<noteq> ''''"
    and r: "0 \<in> set (s_clients example_server)"
    by (simp_all add: example_server_def)
  have sdr: "c_addr (s_objs example_server 0) = d_sender (?d dest)" for dest
    by (simp add: example_server_def)
  note inv = server_inv_example
  from data_frame_relayed [OF dec(1) ty auth sdr inv r, of auth_reader 7]
    data_frame_relayed [OF dec(2) ty auth sdr inv r, of auth_reader 7]
    data_frame_relayed [OF dec(3) ty auth sdr inv r, of auth_reader 7]
    dec(1) inv
  show ?thesis
    by (simp add: example_server_def ALL_CLIENTS_def)
qed

subsection \<open>Frames with a forged sender\<close>

text \<open>
  Claim C6 (amended). \<open>_process_frame\<close> hands a frame of type AUTH to
  \<open>_process_authframe\<close> before it looks at the client's group or at the sender byte. For
  a frame that decodes and is of any other type, sent by an authenticated client with a
  sender byte that is not the client's address, the call returns without an exception and
  the server is as before but for the warning line (written when the verbosity allows
  it): nothing is appended to any output buffer, the client list, the client's record and
  its socket are unchanged.
\<close>

theorem forged_sender_dropped:
  assumes "decode_frame frame = Inr d" and "d_type d \<noteq> FRAME_TYPE_AUTH"
    and "c_group (s_objs s r) \<noteq> ''''" and "c_addr (s_objs s r) \<noteq> d_sender d"
  shows "server_process_frame rd s r frame now =
      Inr (s\<lparr> s_log := (if s_verbosity s \<ge> VERBOSITY_WARNING
                          then s_log s @ [[''Forged sender addr.'', c_ip (s_objs s r)]]
                          else s_log s) \<rparr>)"
  using server_process_frame_unfold [OF assms(1), of rd s r now] assms(2-4)
  by (simp add: server_print_def)

theorem forged_sender_dropped_witness:
  "decode_frame (data_frame [2]) =
     Inr \<lparr> d_version = VERSION, d_dest = [2], d_sender = [1], d_type = FRAME_TYPE_DATA,
           d_meta = [0],
           d_data = dumps (JList [envelope_json
                      \<lparr> e_title = ''x'', e_content = JInt 1, e_queue = False \<rparr>]) \<rparr> \<and>
   c_group (s_objs example_server 1) = ''g'' \<and> c_addr (s_objs example_server 1) = [2] \<and>
   server_process_frame auth_reader example_server 1 (data_frame [2]) 7 =
     Inr (example_server
            \<lparr> s_log := s_log example_server @ [[''Forged sender addr.'', ''10.0.0.2'']] \<rparr>)"
proof -
  let ?d = "\<lparr> d_version = VERSION, d_dest = [2], d_sender = [1], d_type = FRAME_TYPE_DATA,
           d_meta = [0],
           d_data = dumps (JList [envelope_json
                      \<lparr> e_title = ''x'', e_content = JInt 1, e_queue = False \<rparr>]) \<rparr>"
  have dec: "decode_frame (data_frame [2]) = Inr ?d"
    by (simp add: decode_data_frame)
  have ty: "d_type ?d \<noteq> FRAME_TYPE_AUTH"
    by (simp add: FRAME_TYPE_DATA_def FRAME_TYPE_AUTH_def)
  have grp: "c_group (s_objs example_server 1) \<noteq> ''''"
    and sdr: "c_addr (s_objs example_server 1) \<noteq> d_sender ?d"
    by (simp_all add: example_server_def)
  from forged_sender_dropped [OF dec ty grp sdr, of auth_reader 7] dec show ?thesis
    by (simp add: example_server_def VERBOSITY_WARNING_def VERBOSITY_INFO_def)
qed

text \<open>
  An AUTH frame is not dropped. The authenticated client \<open>a\<close> of the example, whose
  address is 1, sends AUTH frames with the sender byte 255. With a name that is taken in
  the group, the server disconnects it and removes it from the client list; with a new
  name, the server gives it another address and writes a PEERS frame to every client of
  the group.
\<close>

theorem forged_sender_auth_frame_processed:
  "c_group (s_objs example_server 0) = ''g'' \<and> c_addr (s_objs example_server 0) = [1] \<and>
   decode_frame (auth_frame ''b'' ''g'') =
     Inr \<lparr> d_version = VERSION, d_dest = SERVER_ADDR, d_sender = [255],
           d_type = FRAME_TYPE_AUTH, d_meta = [0], d_data = auth_payload ''b'' ''g'' \<rparr> \<and>
   (\<exists>s'. server_process_frame auth_reader example_server 0 (auth_frame ''b'' ''g'') 7 = Inr s' \<and>
      s_clients s' = [1, 2, 3] \<and> \<not> c_sock_open (s_objs s' 0) \<and>
      s_log s' = s_log example_server @ [[''Repeated name. Closing'', ''10.0.0.1'']]) \<and>
   decode_frame (auth_frame ''d'' ''g'') =
     Inr \<lparr> d_version = VERSION, d_dest = SERVER_ADDR, d_sender = [255],
           d_type = FRAME_TYPE_AUTH, d_meta = [0], d_data = auth_payload ''d'' ''g'' \<rparr> \<and>
   (\<exists>s'. server_process_frame auth_reader example_server 0 (auth_frame ''d'' ''g'') 7 = Inr s' \<and>
      c_name (s_objs s' 0) = ''d'' \<and> c_addr (s_objs s' 0) = [3] \<and>
      c_outb (s_objs s' 1) \<noteq> [] \<and> c_outb (s_objs s' 1) = c_outb (s_objs s' 0))"
  by (simp add: example_server_def auth_frame_bytes auth_payload_bytes auth_reader_def
      server_eval codec_eval)

subsection \<open>Clients that leave\<close>

lemma outb_server_disconnect [simp]:
  "c_outb (s_objs (server_disconnect s r) x) = c_outb (s_objs s x)"
  by (simp add: server_disconnect_def)

lemma outb_timeout_loop:
  "c_outb (s_objs (snd (timeout_loop fsub s now i disconnected)) x) = c_outb (s_objs s x)"
proof (induction fsub s now i disconnected rule: timeout_loop.induct)
  case (1 fsub s now i disconnected)
  show ?case
  proof (cases "i < length (s_clients s)")
    case False
    then show ?thesis
      by (simp add: timeout_loop.simps [of fsub s])
  next
    case lt: True
    let ?r = "s_clients s ! i"
    show ?thesis
    proof (cases "c_watchDog (s_objs s ?r) < fsub now 5")
      case True
      from "1.IH"(1) [OF lt refl True] lt True show ?thesis
        by (simp add: timeout_loop.simps [of fsub s] Let_def)
    next
      case False
      from "1.IH"(2) [OF lt refl False] lt False show ?thesis
        by (simp add: timeout_loop.simps [of fsub s] Let_def)
    qed
  qed
qed

text \<open>
  Claim C8 (not met by the code). \<open>_send_peers_frame\<close> is called in
  \<open>_process_authframe\<close> only. \<open>disconnect\<close> and \<open>disconnect_if_timeout\<close> append nothing
  to any client's output buffer, and neither does \<open>_service_read\<close> when the peer has
  closed the connection: the clients that remain in the group are sent no PEERS frame. In
  the example, the watchdog evicts client \<open>a\<close> at time 6.5; client \<open>b\<close> is then the only
  client of group \<open>g\<close>, and its output buffer is still empty.
\<close>

theorem no_peers_frame_when_client_leaves:
  "c_outb (s_objs (server_disconnect s r) x) = c_outb (s_objs s x) \<and>
   c_outb (s_objs (snd (disconnect_if_timeout fsub s now)) x) = c_outb (s_objs s x) \<and>
   service_read rd depth s r (Received []) now =
     Inr (server_disconnect
            (server_print s VERBOSITY_INFO [''Client disconnected. Closing'', c_ip (s_objs s r)])
            r) \<and>
   c_outb (s_objs (server_disconnect
            (server_print s VERBOSITY_INFO [''Client disconnected. Closing'', c_ip (s_objs s r)])
            r) x) = c_outb (s_objs s x) \<and>
   get_clients_by_group example_server ''g'' = [0, 1] \<and>
   fst (disconnect_if_timeout (-) example_server 6.5) = [''10.0.0.1''] \<and>
   get_clients_by_group (snd (disconnect_if_timeout (-) example_server 6.5)) ''g'' = [1] \<and>
   c_outb (s_objs (snd (disconnect_if_timeout (-) example_server 6.5)) 1) = []"
proof -
  have "snd (disconnect_if_timeout (-) example_server 6.5) = server_disconnect example_server 0 \<and>
      fst (disconnect_if_timeout (-) example_server 6.5) = [''10.0.0.1'']"
    by (simp add: disconnect_if_timeout_def timeout_loop.simps example_server_def
        server_disconnect_def fun_eq_iff)
  then show ?thesis
    by (simp add: disconnect_if_timeout_def outb_timeout_loop service_read_def
        get_clients_by_group_def example_server_def server_disconnect_def)
qed

end

